theory Spec2Isabelle
  imports
    Complex_Main
    "HOL-Library.Char_ord"
    "HOL-Library.List_Lexorder"
    "HOL-Library.Product_Lexorder"
begin

section \<open>Data model\<close>

text \<open>
  The extractor reads the JSON company facts of SEC EDGAR. The parts of that JSON the
  code looks at are modelled as follows.

  \<^item> Numbers are rationals (\<open>rat\<close>). A JSON integer is a Python integer, whose
    arithmetic is exact. A JSON number with a fraction is a Python float, modelled as the
    rational it stands for; the section on floats gives the rounding of its subtraction,
    and \<open>quarter_increment_with\<close> is the decomposition on floats. Elsewhere the
    arithmetic is the exact one.
  \<^item> An observation is the dictionary of one reported value. The code reads it with
    \<open>x.get(key)\<close> only, so each field is an option, \<open>None\<close> standing for a missing key.
    The value under \<open>"fy"\<close> is an integer or a string in the feed, and the code compares
    its \<open>str()\<close>. The value under \<open>"end"\<close>, when there, is a string (an ISO date) and the
    one under \<open>"val"\<close>, when there, is a number, as in every EDGAR feed.
  \<^item> A fact is a dictionary whose key \<open>"units"\<close> maps a unit name to the array of its
    observations. Python dictionaries keep insertion order and the code takes the first
    unit, so the units are an association list. \<open>None\<close> is a fact that is not a dictionary
    or has no \<open>"units"\<close> key.
\<close>

datatype json_fy = FyInt int | FyStr string | FyNone

record observation =
  obs_fy :: json_fy
  obs_fp :: "string option"
  obs_end :: "string option"
  obs_val :: "rat option"

type_synonym fact = "(string \<times> observation list) list option"

type_synonym usgaap = "string \<Rightarrow> fact option"

section \<open>Python's \<open>str\<close> on integers\<close>

fun str_nat :: "nat \<Rightarrow> string" where
  "str_nat n =
     (if n < 10 then [char_of (48 + n)]
      else str_nat (n div 10) @ [char_of (48 + n mod 10)])"

declare str_nat.simps [simp del]

definition str_int :: "int \<Rightarrow> string" where
  "str_int i = (if i < 0 then CHR ''-'' # str_nat (nat (- i)) else str_nat (nat i))"

text \<open>\<open>str(x.get("fy"))\<close>: a missing key gives \<open>None\<close>, whose \<open>str\<close> is \<open>"None"\<close>.\<close>

fun str_fy :: "json_fy \<Rightarrow> string" where
  "str_fy (FyInt i) = str_int i"
| "str_fy (FyStr s) = s"
| "str_fy FyNone = ''None''"

section \<open>XBRL helper functions\<close>

fun select_units_prefer_usd :: "fact \<Rightarrow> observation list \<times> string option" where
  "select_units_prefer_usd None = ([], None)"
| "select_units_prefer_usd (Some units) =
     (case map_of units ''USD'' of
        Some arr \<Rightarrow> (arr, Some ''USD'')
      | None \<Rightarrow>
          (case units of
             (unit_name, unit_data) # _ \<Rightarrow> (unit_data, Some unit_name)
           | [] \<Rightarrow> ([], None)))"

text \<open>The filter of \<open>pick_val\<close>: \<open>str(x.get("fy")) == str(fy) and x.get("fp") == fp\<close>.\<close>

definition is_candidate :: "int \<Rightarrow> string \<Rightarrow> observation \<Rightarrow> bool" where
  "is_candidate fy fp x \<longleftrightarrow> str_fy (obs_fy x) = str_int fy \<and> obs_fp x = Some fp"

definition candidates :: "observation list \<Rightarrow> int \<Rightarrow> string \<Rightarrow> observation list" where
  "candidates arr fy fp = filter (is_candidate fy fp) arr"

text \<open>The sort key of \<open>pick_val\<close>: \<open>(x.get("end", ""), x.get("val", 0))\<close>.\<close>

definition end_or_empty :: "observation \<Rightarrow> string" where
  "end_or_empty x = (case obs_end x of None \<Rightarrow> [] | Some e \<Rightarrow> e)"

definition val_or_zero :: "observation \<Rightarrow> rat" where
  "val_or_zero x = (case obs_val x of None \<Rightarrow> 0 | Some v \<Rightarrow> v)"

definition pick_key :: "observation \<Rightarrow> string \<times> rat" where
  "pick_key x = (end_or_empty x, val_or_zero x)"

text \<open>
  Python's \<open>sorted\<close> is stable, as is the insertion sort \<open>sort_key\<close>; tuples and
  strings compare lexicographically. \<open>candidates[-1]\<close> is read on a non-empty list only.
\<close>

definition pick_val :: "observation list \<Rightarrow> int \<Rightarrow> string \<Rightarrow> rat option" where
  "pick_val arr fy fp =
     (let cs = candidates arr fy fp
      in if cs = [] then None else obs_val (last (sort_key pick_key cs)))"

text \<open>
  The dictionary returned by \<open>quarter_increment\<close>, with keys \<open>Q1\<close>, \<open>Q2\<close>, \<open>Q3\<close>,
  \<open>Q4\<close> and \<open>FY\<close>.
\<close>

record increments =
  Q1 :: "rat option"
  Q2 :: "rat option"
  Q3 :: "rat option"
  Q4 :: "rat option"
  FY :: "rat option"

definition no_increments :: increments where
  "no_increments = \<lparr>Q1 = None, Q2 = None, Q3 = None, Q4 = None, FY = None\<rparr>"

text \<open>\<open>next((t for t in tag_list if t in usgaap), None)\<close>\<close>

definition first_tag :: "usgaap \<Rightarrow> string list \<Rightarrow> string option" where
  "first_tag ug tag_list = find (\<lambda>t. ug t \<noteq> None) tag_list"

text \<open>\<open>(q or 0)\<close> on a number or \<open>None\<close>.\<close>

fun or_zero :: "rat option \<Rightarrow> rat" where
  "or_zero None = 0"
| "or_zero (Some v) = v"

text \<open>
  The increments computed from the observation array of the resolved tag (the body of
  \<open>quarter_increment\<close> after the tag lookup).
\<close>

definition increments_of :: "observation list \<Rightarrow> int \<Rightarrow> increments" where
  "increments_of arr fy =
     (let ytd1 = pick_val arr fy ''Q1'';
          ytd2 = pick_val arr fy ''Q2'';
          ytd3 = pick_val arr fy ''Q3'';
          fy_val = pick_val arr fy ''FY'';
          q1 = ytd1;
          q2 = (case (ytd2, ytd1) of (Some b, Some a) \<Rightarrow> Some (b - a) | _ \<Rightarrow> ytd2);
          q3 = (case (ytd3, ytd2) of (Some c, Some b) \<Rightarrow> Some (c - b) | _ \<Rightarrow> ytd3);
          q4 = (if fy_val \<noteq> None \<and> None \<notin> set [q1, q2, q3]
                then Some (or_zero fy_val - or_zero q1 - or_zero q2 - or_zero q3)
                else (let d = pick_val arr fy ''Q4''
                      in if d = None \<and> fy_val \<noteq> None then fy_val else d))
      in \<lparr>Q1 = q1, Q2 = q2, Q3 = q3, Q4 = q4, FY = fy_val\<rparr>)"

text \<open>
  \<open>if not tag\<close> is true for \<open>None\<close> and for the empty string. The tag that
  \<open>first_tag\<close> returns is a key of \<open>usgaap\<close>, so \<open>usgaap[tag]\<close> does not fail.
\<close>

definition quarter_increment :: "usgaap \<Rightarrow> string list \<Rightarrow> int \<Rightarrow> increments" where
  "quarter_increment ug tag_list fy =
     (case first_tag ug tag_list of
        None \<Rightarrow> no_increments
      | Some tag \<Rightarrow>
          if tag = [] then no_increments
          else (case ug tag of
                  None \<Rightarrow> no_increments
                | Some fct \<Rightarrow> increments_of (fst (select_units_prefer_usd fct)) fy))"

definition quarter_instant :: "usgaap \<Rightarrow> string list \<Rightarrow> int \<Rightarrow> string \<Rightarrow> rat option" where
  "quarter_instant ug tag_list fy fq =
     (case first_tag ug tag_list of
        None \<Rightarrow> None
      | Some tag \<Rightarrow>
          if tag = [] then None
          else (case ug tag of
                  None \<Rightarrow> None
                | Some fct \<Rightarrow>
                    (let arr = fst (select_units_prefer_usd fct);
                         val = pick_val arr fy fq
                     in if val = None \<and> fq = ''Q4'' then pick_val arr fy ''FY'' else val)))"

text \<open>
  The observation array that \<open>quarter_increment\<close> and \<open>quarter_instant\<close> work on:
  the first three statements the two functions share, as one function, so that a
  theorem can name the array. \<open>None\<close> is the early return.
\<close>

definition tag_observations :: "usgaap \<Rightarrow> string list \<Rightarrow> observation list option" where
  "tag_observations ug tag_list =
     (case first_tag ug tag_list of
        None \<Rightarrow> None
      | Some tag \<Rightarrow>
          if tag = [] then None
          else (case ug tag of
                  None \<Rightarrow> None
                | Some fct \<Rightarrow> Some (fst (select_units_prefer_usd fct))))"

section \<open>XBRL tag mappings\<close>

definition DURATION_TAGS :: "(string \<times> string list) list" where
  "DURATION_TAGS =
    [(''revenue'', [''RevenueFromContractWithCustomerExcludingAssessedTax'',
                    ''SalesRevenueNet'', ''Revenues'']),
     (''cogs'', [''CostOfGoodsAndServicesSold'', ''CostOfRevenue'']),
     (''ebit'', [''OperatingIncomeLoss'',
                 ''IncomeLossFromContinuingOperationsBeforeIncomeTaxes'']),
     (''net_income'', [''NetIncomeLoss'', ''ProfitLoss'']),
     (''eps_diluted'', [''EarningsPerShareDiluted'', ''EarningsPerShareBasicAndDiluted'']),
     (''da'', [''DepreciationDepletionAndAmortization'', ''DepreciationAndAmortization'']),
     (''tax_expense'', [''IncomeTaxExpenseBenefit'']),
     (''cfo'', [''NetCashProvidedByUsedInOperatingActivities'']),
     (''cfi'', [''NetCashProvidedByUsedInInvestingActivities'']),
     (''cff'', [''NetCashProvidedByUsedInFinancingActivities'']),
     (''capex'', [''PaymentsToAcquirePropertyPlantAndEquipment'',
                  ''CapitalExpendituresIncurredButNotYetPaid'']),
     (''interest_exp'', [''InterestExpense'', ''InterestAndDebtExpense'']),
     (''dividends'', [''PaymentsOfDividendsCommonStock'', ''PaymentsOfDividends'']),
     (''rnd'', [''ResearchAndDevelopmentExpense'']),
     (''sga'', [''SellingGeneralAndAdministrativeExpense''])]"

definition INSTANT_TAGS :: "(string \<times> string list) list" where
  "INSTANT_TAGS =
    [(''assets'', [''Assets'']),
     (''assets_current'', [''AssetsCurrent'']),
     (''liabilities_current'', [''LiabilitiesCurrent'']),
     (''equity'', [''StockholdersEquityIncludingPortionAttributableToNoncontrollingInterest'',
                   ''StockholdersEquity'']),
     (''cash'', [''CashAndCashEquivalentsAtCarryingValue'', ''Cash'']),
     (''sti'', [''MarketableSecuritiesCurrent'', ''AvailableForSaleSecuritiesCurrent'']),
     (''ar'', [''AccountsReceivableNetCurrent'', ''AccountsReceivableNet'']),
     (''ap'', [''AccountsPayableCurrent'', ''AccountsPayable'']),
     (''inventory'', [''InventoryNet'', ''Inventory'']),
     (''debt_lt_nc'', [''LongTermDebtNoncurrent'']),
     (''debt_lt_cur'', [''LongTermDebtCurrent'']),
     (''debt_st'', [''ShortTermBorrowings'']),
     (''ppe'', [''PropertyPlantAndEquipmentNet'']),
     (''goodwill'', [''Goodwill'']),
     (''intangibles'', [''FiniteLivedIntangibleAssetsNet'',
                        ''IntangibleAssetsNetExcludingGoodwill'']),
     (''retained'', [''RetainedEarningsAccumulatedDeficit'']),
     (''deferred_revenue'', [''ContractWithCustomerLiabilityCurrent'', ''DeferredRevenue'']),
     (''treasury_stock'', [''TreasuryStockValue''])]"

text \<open>
  \<open>TABLE[key]\<close>. The code indexes the two tables with keys of the tables only, so the
  \<open>KeyError\<close> of a missing key is never reached; the model gives the empty tag list there.
\<close>

definition tags_of :: "(string \<times> string list) list \<Rightarrow> string \<Rightarrow> string list" where
  "tags_of table key = (case map_of table key of None \<Rightarrow> [] | Some ts \<Rightarrow> ts)"

section \<open>Total debt\<close>

definition total_debt :: "usgaap \<Rightarrow> int \<Rightarrow> string \<Rightarrow> rat option" where
  "total_debt ug fy fq =
     (let lt = quarter_instant ug (tags_of INSTANT_TAGS ''debt_lt_nc'') fy fq;
          cur = quarter_instant ug (tags_of INSTANT_TAGS ''debt_lt_cur'') fy fq;
          st = quarter_instant ug (tags_of INSTANT_TAGS ''debt_st'') fy fq;
          values = List.map_filter (\<lambda>v. v) [lt, cur, st]
      in if values = [] then None else Some (sum_list values))"

section \<open>Safe division\<close>

text \<open>
  \<open>(a / b) if (a is not None and b not in (None, 0)) else 0.0\<close>, inside a \<open>try\<close> whose
  handler returns \<open>0.0\<close>. On numbers the division by a non-zero number does not raise,
  so the handler is never entered and the function has no error result.
\<close>

definition safe_div :: "rat option \<Rightarrow> rat option \<Rightarrow> rat" where
  "safe_div a b =
     (if a \<noteq> None \<and> b \<notin> set [None, Some 0] then or_zero a / or_zero b else 0)"

section \<open>The panel builder\<close>

text \<open>
  One row of the raw panel: the dictionary \<open>row\<close> of \<open>build_quarterly\<close>. The four
  identifying entries are fields; the 31 raw metrics are kept in the order the dictionary
  lists them, each a number or \<open>None\<close>.
\<close>

record row =
  ticker :: string
  cik :: string
  r_fy :: int
  r_fq :: string
  raw :: "(string \<times> rat option) list"

text \<open>A column of a row; in the data frame a \<open>None\<close> is a missing value (NaN).\<close>

definition col :: "'a row_scheme \<Rightarrow> string \<Rightarrow> rat option" where
  "col r key = (case map_of (raw r) key of None \<Rightarrow> None | Some v \<Rightarrow> v)"

text \<open>\<open>d[fq]\<close> on the dictionary that \<open>quarter_increment\<close> returns.\<close>

definition quarter_of :: "increments \<Rightarrow> string \<Rightarrow> rat option" where
  "quarter_of d fq =
     (if fq = ''Q1'' then Q1 d else if fq = ''Q2'' then Q2 d
      else if fq = ''Q3'' then Q3 d else if fq = ''Q4'' then Q4 d
      else if fq = ''FY'' then FY d else None)"

text \<open>
  \<open>duration_data[key]\<close>, where \<open>duration_data\<close> maps every key of
  \<open>DURATION_TAGS\<close> to the increments of its tag list.
\<close>

definition duration_data :: "usgaap \<Rightarrow> int \<Rightarrow> string \<Rightarrow> increments" where
  "duration_data ug fy key = quarter_increment ug (tags_of DURATION_TAGS key) fy"

definition duration_keys :: "string list" where
  "duration_keys =
     [''cogs'', ''ebit'', ''net_income'', ''eps_diluted'', ''da'', ''tax_expense'', ''cfo'',
      ''cfi'', ''cff'', ''capex'', ''interest_exp'', ''dividends'', ''rnd'', ''sga'']"

definition instant_keys :: "string list" where
  "instant_keys =
     [''assets'', ''assets_current'', ''liabilities_current'', ''equity'', ''cash'', ''sti'',
      ''ar'', ''ap'', ''inventory'', ''ppe'', ''goodwill'', ''intangibles'', ''retained'',
      ''deferred_revenue'']"

definition make_row :: "usgaap \<Rightarrow> string \<Rightarrow> string \<Rightarrow> int \<Rightarrow> string \<Rightarrow> rat option \<Rightarrow> row" where
  "make_row ug tk ck fy fq revenue =
     \<lparr>ticker = tk, cik = ck, r_fy = fy, r_fq = fq,
      raw = (''revenue'', revenue)
            # map (\<lambda>key. (key, quarter_of (duration_data ug fy key) fq)) duration_keys
            @ map (\<lambda>key. (key, quarter_instant ug (tags_of INSTANT_TAGS key) fy fq)) instant_keys
            @ [(''debt'', total_debt ug fy fq),
               (''treasury_stock'',
                  quarter_instant ug (tags_of INSTANT_TAGS ''treasury_stock'') fy fq)]\<rparr>"

text \<open>
  The body of the loop over the quarters: the two data quality filters, then the row.
  The result is the list of the rows appended (none or one).
\<close>

definition quarter_rows ::
  "usgaap \<Rightarrow> bool \<Rightarrow> string option \<Rightarrow> string \<Rightarrow> string \<Rightarrow> int \<Rightarrow> string \<Rightarrow> row list" where
  "quarter_rows ug usd_only rev_unit tk ck fy fq =
     (let revenue = quarter_of (duration_data ug fy ''revenue'') fq
      in if revenue = None \<or> revenue = Some 0 then []
         else if usd_only \<and> rev_unit \<noteq> Some ''USD'' then []
         else [make_row ug tk ck fy fq revenue])"

definition year_rows ::
  "usgaap \<Rightarrow> bool \<Rightarrow> string option \<Rightarrow> string \<Rightarrow> string \<Rightarrow> int \<Rightarrow> row list" where
  "year_rows ug usd_only rev_unit tk ck fy =
     concat (map (quarter_rows ug usd_only rev_unit tk ck fy) [''Q1'', ''Q2'', ''Q3'', ''Q4''])"

text \<open>\<open>str.upper\<close> on ASCII letters; other characters are left as they are.\<close>

definition upper_char :: "char \<Rightarrow> char" where
  "upper_char c =
     (if CHR ''a'' \<le> c \<and> c \<le> CHR ''z'' then char_of (of_char c - (32::nat)) else c)"

definition upper :: "string \<Rightarrow> string" where
  "upper s = map upper_char s"

text \<open>
  The unit of the revenue tag of one company:
  \<open>select_units_prefer_usd(usgaap[rev_tag]) if rev_tag else ([], None)\<close>.
\<close>

definition revenue_unit :: "usgaap \<Rightarrow> string option" where
  "revenue_unit ug =
     (case first_tag ug (tags_of DURATION_TAGS ''revenue'') of
        None \<Rightarrow> None
      | Some rev_tag \<Rightarrow>
          if rev_tag = [] then None
          else (case ug rev_tag of
                  None \<Rightarrow> None
                | Some fct \<Rightarrow> snd (select_units_prefer_usd fct)))"

text \<open>
  The body of the loop over the tickers. The two things the code gets from the network
  are parameters: \<open>ticker_map\<close> is the dictionary that \<open>load_ticker_map\<close> returns, and
  \<open>fetch c\<close> is the \<open>us-gaap\<close> dictionary of the company facts of \<open>c\<close>, or \<open>None\<close> when
  the request or its decoding raises, which the \<open>try\<close> of the loop turns into skipping
  the ticker. \<open>if not cik\<close> is true for a missing ticker and for an empty string.
\<close>

definition ticker_rows ::
  "(string \<Rightarrow> string option) \<Rightarrow> (string \<Rightarrow> usgaap option) \<Rightarrow> int \<Rightarrow> int \<Rightarrow> bool \<Rightarrow> string
     \<Rightarrow> row list" where
  "ticker_rows ticker_map fetch start_year end_year usd_only tk =
     (case ticker_map (upper tk) of
        None \<Rightarrow> []
      | Some ck \<Rightarrow>
          if ck = [] then []
          else (case fetch ck of
                  None \<Rightarrow> []
                | Some ug \<Rightarrow>
                    concat (map (year_rows ug usd_only (revenue_unit ug) tk ck)
                                [start_year..end_year])))"

text \<open>The list \<open>rows\<close> when the loop over the tickers is over.\<close>

definition collect_rows ::
  "(string \<Rightarrow> string option) \<Rightarrow> (string \<Rightarrow> usgaap option) \<Rightarrow> string list \<Rightarrow> int \<Rightarrow> int \<Rightarrow> bool
     \<Rightarrow> row list" where
  "collect_rows ticker_map fetch tickers start_year end_year usd_only =
     concat (map (ticker_rows ticker_map fetch start_year end_year usd_only) tickers)"

section \<open>The data frame: growth columns, final filter\<close>

text \<open>
  A float of the data frame that a growth column can hold before it is cleaned: a number,
  an infinity (of either sign: the code replaces both alike) or NaN.
\<close>

datatype pct = Finite rat | Infinite | NotANumber

text \<open>
  \<open>groupby("ticker")[c].shift(1)\<close>: for each row the value of the column in the row
  before it in the same group, NaN for the first row of a group. The first argument
  holds the rows already passed, the latest first.
\<close>

fun group_shift ::
  "(string \<times> rat option) list \<Rightarrow> (string \<times> rat option) list \<Rightarrow> rat option list" where
  "group_shift seen [] = []"
| "group_shift seen ((g, v) # rest) =
     (case map_of seen g of None \<Rightarrow> None | Some pv \<Rightarrow> pv) # group_shift ((g, v) # seen) rest"

text \<open>
  One entry of \<open>pct_change(fill_method=None)\<close>, which is \<open>cur / prev - 1\<close> in floats: a
  missing operand gives NaN, \<open>0 / 0\<close> gives NaN, any other division by zero an infinity.
\<close>

definition pct_change :: "rat option \<Rightarrow> rat option \<Rightarrow> pct" where
  "pct_change cur prev =
     (case (cur, prev) of
        (Some c, Some p) \<Rightarrow>
          if p = 0 then (if c = 0 then NotANumber else Infinite) else Finite (c / p - 1)
      | _ \<Rightarrow> NotANumber)"

text \<open>\<open>.replace([inf, -inf], pd.NA).fillna(0)\<close>\<close>

fun replace_fillna :: "pct \<Rightarrow> rat" where
  "replace_fillna (Finite x) = x"
| "replace_fillna Infinite = 0"
| "replace_fillna NotANumber = 0"

text \<open>The growth column of a frame for one of its raw columns.\<close>

definition growth :: "row list \<Rightarrow> string \<Rightarrow> rat list" where
  "growth df key =
     (let vals = map (\<lambda>r. (ticker r, col r key)) df
      in map2 (\<lambda>(g, cur) prev. replace_fillna (pct_change cur prev))
              vals (group_shift [] vals))"

text \<open>A row of the returned panel: the raw row and the two growth columns.\<close>

record panel_row = row +
  sales_growth :: rat
  earning_growth :: rat

definition add_growth :: "row \<Rightarrow> rat \<times> rat \<Rightarrow> panel_row" where
  "add_growth r g =
     \<lparr>ticker = ticker r, cik = cik r, r_fy = r_fy r, r_fq = r_fq r, raw = raw r,
      sales_growth = fst g, earning_growth = snd g\<rparr>"

text \<open>\<open>(~df["revenue"].isna()) & (df["revenue"] > 0)\<close>\<close>

definition final_check :: "panel_row \<Rightarrow> bool" where
  "final_check r = (case col r ''revenue'' of None \<Rightarrow> False | Some v \<Rightarrow> 0 < v)"

text \<open>
  \<open>df.select_dtypes(include=["float", "int"])\<close> on the raw columns. The frame is built
  from the list of the rows: a column that is \<open>None\<close> in every row gets the dtype
  \<open>object\<close>, and a column with a number in some row holds numbers, with NaN for
  \<open>None\<close>. Removing rows does not change the dtype of a column.
\<close>

definition raw_keys :: "string list" where
  "raw_keys = ''revenue'' # duration_keys @ instant_keys @ [''debt'', ''treasury_stock'']"

definition numeric_cols :: "row list \<Rightarrow> string list" where
  "numeric_cols df = filter (\<lambda>key. list_ex (\<lambda>r. col r key \<noteq> None) df) raw_keys"

text \<open>
  \<open>df[numeric_cols_no_rev].fillna(0)\<close> on one row: a missing value of a column of the
  list becomes 0.
\<close>

definition fill_zero :: "string list \<Rightarrow> panel_row \<Rightarrow> panel_row" where
  "fill_zero numeric_cols_no_rev r =
     r\<lparr>raw := map (\<lambda>(key, v).
                    (key, if key \<in> set numeric_cols_no_rev \<and> v = None then Some 0 else v))
                 (raw r)\<rparr>"

text \<open>
  \<open>build_quarterly\<close>: the rows collected, sorted by ticker, year and quarter, extended
  with the growth columns, filtered and filled. The other derived columns of
  \<open>calculate_derived_metrics\<close> are computed row by row or from the row before, and
  neither select rows nor enter the revenue and growth columns; they are left out.
\<close>

definition sorted_frame :: "row list \<Rightarrow> row list" where
  "sorted_frame rows = sort_key (\<lambda>r. (ticker r, r_fy r, r_fq r)) rows"

definition with_growth :: "row list \<Rightarrow> panel_row list" where
  "with_growth df = map2 add_growth df (zip (growth df ''revenue'') (growth df ''net_income''))"

definition build_quarterly ::
  "(string \<Rightarrow> string option) \<Rightarrow> (string \<Rightarrow> usgaap option) \<Rightarrow> string list \<Rightarrow> int \<Rightarrow> int \<Rightarrow> bool
     \<Rightarrow> panel_row list" where
  "build_quarterly ticker_map fetch tickers start_year end_year usd_only =
     (let rows = collect_rows ticker_map fetch tickers start_year end_year usd_only
      in if rows = [] then []
         else (let df = sorted_frame rows;
                   numeric_cols_no_rev = filter (\<lambda>c. c \<noteq> ''revenue'') (numeric_cols df)
               in map (fill_zero numeric_cols_no_rev) (filter final_check (with_growth df))))"

section \<open>Python floats\<close>

text \<open>
  A JSON number with a fraction, such as an earnings per share of 0.35, is read as a
  Python float, and a subtraction of floats gives the float nearest to the exact
  difference. A float is an IEEE 754 binary64 number: an integer of magnitude below
  \<open>2^53\<close> times a power of two with an exponent from -1074 to 971. A float is modelled
  as the rational number it stands for.

  \<open>round_double x\<close> is the float nearest to \<open>x\<close>, a tie going to the even
  significand. The exponent is the least one that leaves the significand below \<open>2^53\<close>.
  For a magnitude of \<open>2^1024\<close> and more there is no exponent and Python gives an
  infinity, which the model does not have: \<open>x\<close> is left as it is. The amounts of the
  feed are far below.
\<close>

definition round_half_even :: "rat \<Rightarrow> int" where
  "round_half_even x =
     (let f = \<lfloor>x\<rfloor>; d = x - of_int f
      in if d < 1 / 2 then f else if 1 / 2 < d then f + 1
         else if even f then f else f + 1)"

definition double_exponents :: "int list" where
  "double_exponents = [- 1074..971]"

definition double_exponent :: "rat \<Rightarrow> int option" where
  "double_exponent x = find (\<lambda>e. \<bar>x\<bar> < 2 powi (e + 53)) double_exponents"

definition round_double :: "rat \<Rightarrow> rat" where
  "round_double x =
     (case double_exponent x of
        None \<Rightarrow> x
      | Some e \<Rightarrow> of_int (round_half_even (x / 2 powi e)) * 2 powi e)"

text \<open>\<open>a - b\<close> and \<open>a + b\<close> on floats.\<close>

definition float_sub :: "rat \<Rightarrow> rat \<Rightarrow> rat" where
  "float_sub a b = round_double (a - b)"

definition float_add :: "rat \<Rightarrow> rat \<Rightarrow> rat" where
  "float_add a b = round_double (a + b)"

text \<open>
  \<open>quarter_increment\<close> with the subtraction as a parameter. On Python integers the
  subtraction is exact: that is \<open>increments_of\<close> and \<open>quarter_increment\<close> above. On
  floats it is \<open>float_sub\<close>. The expression for the fourth quarter is
  \<open>fy_val - (q1 or 0) - (q2 or 0) - (q3 or 0)\<close>, evaluated from the left.
\<close>

definition increments_with ::
  "(rat \<Rightarrow> rat \<Rightarrow> rat) \<Rightarrow> observation list \<Rightarrow> int \<Rightarrow> increments" where
  "increments_with sub arr fy =
     (let ytd1 = pick_val arr fy ''Q1'';
          ytd2 = pick_val arr fy ''Q2'';
          ytd3 = pick_val arr fy ''Q3'';
          fy_val = pick_val arr fy ''FY'';
          q1 = ytd1;
          q2 = (case (ytd2, ytd1) of (Some b, Some a) \<Rightarrow> Some (sub b a) | _ \<Rightarrow> ytd2);
          q3 = (case (ytd3, ytd2) of (Some c, Some b) \<Rightarrow> Some (sub c b) | _ \<Rightarrow> ytd3);
          q4 = (if fy_val \<noteq> None \<and> None \<notin> set [q1, q2, q3]
                then Some (sub (sub (sub (or_zero fy_val) (or_zero q1)) (or_zero q2)) (or_zero q3))
                else (let d = pick_val arr fy ''Q4''
                      in if d = None \<and> fy_val \<noteq> None then fy_val else d))
      in \<lparr>Q1 = q1, Q2 = q2, Q3 = q3, Q4 = q4, FY = fy_val\<rparr>)"

definition quarter_increment_with ::
  "(rat \<Rightarrow> rat \<Rightarrow> rat) \<Rightarrow> usgaap \<Rightarrow> string list \<Rightarrow> int \<Rightarrow> increments" where
  "quarter_increment_with sub ug tag_list fy =
     (case first_tag ug tag_list of
        None \<Rightarrow> no_increments
      | Some tag \<Rightarrow>
          if tag = [] then no_increments
          else (case ug tag of
                  None \<Rightarrow> no_increments
                | Some fct \<Rightarrow> increments_with sub (fst (select_units_prefer_usd fct)) fy))"

section \<open>Example fact sets\<close>

text \<open>An observation with all four keys, the fiscal year as a JSON integer.\<close>

definition reported :: "int \<Rightarrow> string \<Rightarrow> string \<Rightarrow> rat \<Rightarrow> observation" where
  "reported fy fp e v = \<lparr>obs_fy = FyInt fy, obs_fp = Some fp, obs_end = Some e, obs_val = Some v\<rparr>"

text \<open>
  A full year: revenue of 100, 250 and 420 year to date and 600 for the year, net income
  of 10, 22, 30 and 50.
\<close>

definition full_year_revenue :: "observation list" where
  "full_year_revenue =
     [reported 2020 ''Q1'' ''2020-03-31'' 100, reported 2020 ''Q2'' ''2020-06-30'' 250,
      reported 2020 ''Q3'' ''2020-09-30'' 420, reported 2020 ''FY'' ''2020-12-31'' 600]"

definition full_year_facts :: usgaap where
  "full_year_facts =
     [''Revenues'' \<mapsto> Some [(''USD'', full_year_revenue)],
      ''NetIncomeLoss'' \<mapsto>
        Some [(''USD'',
          [reported 2020 ''Q1'' ''2020-03-31'' 10, reported 2020 ''Q2'' ''2020-06-30'' 22,
           reported 2020 ''Q3'' ''2020-09-30'' 30, reported 2020 ''FY'' ''2020-12-31'' 50])]]"

text \<open>A partial year: no first quarter and no annual figure.\<close>

definition partial_year_revenue :: "observation list" where
  "partial_year_revenue =
     [reported 2020 ''Q2'' ''2020-06-30'' 250, reported 2020 ''Q3'' ''2020-09-30'' 420]"

definition partial_year_facts :: usgaap where
  "partial_year_facts = [''Revenues'' \<mapsto> Some [(''USD'', partial_year_revenue)]]"

text \<open>
  A year whose revenue to date falls from the first quarter to the second: 100, then 60,
  then 150. Net income to date is 10, 22 and 30.
\<close>

definition falling_year_facts :: usgaap where
  "falling_year_facts =
     [''Revenues'' \<mapsto>
        Some [(''USD'',
          [reported 2020 ''Q1'' ''2020-03-31'' 100, reported 2020 ''Q2'' ''2020-06-30'' 60,
           reported 2020 ''Q3'' ''2020-09-30'' 150])],
      ''NetIncomeLoss'' \<mapsto>
        Some [(''USD'',
          [reported 2020 ''Q1'' ''2020-03-31'' 10, reported 2020 ''Q2'' ''2020-06-30'' 22,
           reported 2020 ''Q3'' ''2020-09-30'' 30])]]"

text \<open>Debt: 1000 long term, no current portion, 500 short term.\<close>

definition debt_facts :: usgaap where
  "debt_facts =
     [''LongTermDebtNoncurrent'' \<mapsto> Some [(''USD'', [reported 2020 ''Q1'' ''2020-03-31'' 1000])],
      ''ShortTermBorrowings'' \<mapsto> Some [(''USD'', [reported 2020 ''Q1'' ''2020-03-31'' 500])]]"

text \<open>
  Two filings of one quarter: the first ends later and has the smaller value. And two
  filings with one period end and different values.
\<close>

definition later_filing :: observation where
  "later_filing = reported 2020 ''Q1'' ''2020-03-31'' 120"

definition earlier_filing :: observation where
  "earlier_filing = reported 2020 ''Q1'' ''2020-03-28'' 500"

definition larger_filing :: observation where
  "larger_filing = reported 2020 ''Q1'' ''2020-03-31'' 130"

text \<open>An observation of the quarter without the key \<open>"val"\<close>.\<close>

definition valueless :: observation where
  "valueless =
     \<lparr>obs_fy = FyInt 2020, obs_fp = Some ''Q1'', obs_end = Some ''2020-03-31'', obs_val = None\<rparr>"

text \<open>
  Earnings per share of 0.35, 0.81 and 1.27 to date and 1.99 for the year, each read as
  a float.
\<close>

definition eps_observations :: "observation list" where
  "eps_observations =
     [reported 2020 ''Q1'' ''2020-03-31'' (round_double (35 / 100)),
      reported 2020 ''Q2'' ''2020-06-30'' (round_double (81 / 100)),
      reported 2020 ''Q3'' ''2020-09-30'' (round_double (127 / 100)),
      reported 2020 ''FY'' ''2020-12-31'' (round_double (199 / 100))]"

definition eps_facts :: usgaap where
  "eps_facts = [''EarningsPerShareDiluted'' \<mapsto> Some [(''USD/shares'', eps_observations)]]"

text \<open>A net income of zero in the first quarter: 0 and then 12 to date.\<close>

definition zero_income_facts :: usgaap where
  "zero_income_facts =
     [''Revenues'' \<mapsto>
        Some [(''USD'',
          [reported 2020 ''Q1'' ''2020-03-31'' 100, reported 2020 ''Q2'' ''2020-06-30'' 250])],
      ''NetIncomeLoss'' \<mapsto>
        Some [(''USD'',
          [reported 2020 ''Q1'' ''2020-03-31'' 0, reported 2020 ''Q2'' ''2020-06-30'' 12])]]"

text \<open>A ticker directory of one company, and the fetches that return its facts.\<close>

definition one_ticker :: "string \<Rightarrow> string option" where
  "one_ticker = [''ACME'' \<mapsto> ''0000000001'']"

definition fetch_full_year :: "string \<Rightarrow> usgaap option" where
  "fetch_full_year c = Some full_year_facts"

definition fetch_partial_year :: "string \<Rightarrow> usgaap option" where
  "fetch_partial_year c = Some partial_year_facts"

definition fetch_falling_year :: "string \<Rightarrow> usgaap option" where
  "fetch_falling_year c = Some falling_year_facts"

definition fetch_zero_income :: "string \<Rightarrow> usgaap option" where
  "fetch_zero_income c = Some zero_income_facts"

section \<open>Lemmas on sorting and on \<open>str\<close>\<close>

text \<open>The last element of a sorted list is one of the list and has the greatest key.\<close>

lemma last_sort_key_mem:
  assumes "xs \<noteq> []"
  shows "last (sort_key f xs) \<in> set xs"
proof -
  have "sort_key f xs \<noteq> []"
    using assms by (metis length_sort length_0_conv)
  then have "last (sort_key f xs) \<in> set (sort_key f xs)"
    by (rule last_in_set)
  then show ?thesis by simp
qed

lemma last_sort_key_greatest:
  assumes "x \<in> set xs"
  shows "f x \<le> f (last (sort_key f xs))"
proof -
  define ys where "ys = sort_key f xs"
  from assms have "x \<in> set ys" by (simp add: ys_def)
  then obtain i where i: "i < length ys" "ys ! i = x"
    by (metis in_set_conv_nth)
  then have ne: "ys \<noteq> []" by auto
  have "sorted (map f ys)" by (simp add: ys_def)
  moreover have "i \<le> length ys - 1" using i by simp
  moreover have "length ys - 1 < length (map f ys)" using ne by simp
  ultimately have "map f ys ! i \<le> map f ys ! (length ys - 1)"
    by (rule sorted_nth_mono)
  then have "f x \<le> f (last ys)"
    using i ne by (simp add: last_conv_nth)
  then show ?thesis by (simp add: ys_def)
qed

lemma str_nat_nonempty: "str_nat n \<noteq> []"
  by (subst str_nat.simps) simp

lemma digit_inj:
  assumes "char_of (48 + a) = char_of (48 + b)" and "a < 10" and "b < 10"
  shows "a = (b::nat)"
proof -
  have "of_char (char_of (48 + a)) = (of_char (char_of (48 + b)) :: nat)"
    using assms(1) by simp
  then have "(48 + a) mod 256 = (48 + b) mod 256"
    by (simp only: of_char_of)
  then show ?thesis using assms(2,3) by simp
qed

lemma digit_not_minus:
  assumes "a < (10::nat)"
  shows "char_of (48 + a) \<noteq> CHR ''-''"
proof
  assume "char_of (48 + a) = CHR ''-''"
  then have "of_char (char_of (48 + a)) = (of_char CHR ''-'' :: nat)" by simp
  then have "(48 + a) mod 256 = 45" by (simp only: of_char_of) simp
  then show False using assms by simp
qed


lemma str_nat_small: "n < 10 \<Longrightarrow> str_nat n = [char_of (48 + n)]"
  by (subst str_nat.simps) simp

lemma str_nat_large: "\<not> n < 10 \<Longrightarrow> str_nat n = str_nat (n div 10) @ [char_of (48 + n mod 10)]"
  by (subst str_nat.simps) simp

lemma str_nat_inj: "str_nat n = str_nat m \<Longrightarrow> n = m"
proof (induction n arbitrary: m rule: str_nat.induct)
  case (1 n)
  show ?case
  proof (cases "n < 10")
    case n: True
    show ?thesis
    proof (cases "m < 10")
      case True
      from "1.prems" have "char_of (48 + n) = char_of (48 + m)"
        by (simp add: str_nat_small n True)
      then show ?thesis using n True by (rule digit_inj)
    next
      case False
      from "1.prems" have "[char_of (48 + n)] = str_nat (m div 10) @ [char_of (48 + m mod 10)]"
        by (simp add: str_nat_small n str_nat_large False)
      then have "str_nat (m div 10) = []" by simp
      then show ?thesis using str_nat_nonempty by blast
    qed
  next
    case n: False
    show ?thesis
    proof (cases "m < 10")
      case True
      from "1.prems" have "str_nat (n div 10) @ [char_of (48 + n mod 10)] = [char_of (48 + m)]"
        by (simp add: str_nat_small True str_nat_large n)
      then have "str_nat (n div 10) = []" by simp
      then show ?thesis using str_nat_nonempty by blast
    next
      case False
      from "1.prems" have "str_nat (n div 10) @ [char_of (48 + n mod 10)] =
          str_nat (m div 10) @ [char_of (48 + m mod 10)]"
        by (simp add: str_nat_large False n)
      then have eq: "str_nat (n div 10) = str_nat (m div 10)"
        and d: "char_of (48 + n mod 10) = char_of (48 + m mod 10)"
        by simp_all
      from "1.IH" [OF n eq] have "n div 10 = m div 10" .
      moreover from d have "n mod 10 = m mod 10"
        by (rule digit_inj) simp_all
      ultimately have "n div 10 * 10 + n mod 10 = m div 10 * 10 + m mod 10" by simp
      then show ?thesis by (simp only: div_mult_mod_eq)
    qed
  qed
qed

lemma str_nat_hd_not_minus: "hd (str_nat n) \<noteq> CHR ''-''"
proof (induction n rule: str_nat.induct)
  case (1 n)
  show ?case
  proof (cases "n < 10")
    case True
    then show ?thesis by (simp add: str_nat_small digit_not_minus)
  next
    case False
    with "1.IH" str_nat_nonempty [of "n div 10"] show ?thesis
      by (simp add: str_nat_large)
  qed
qed

lemma minus_not_str_nat: "CHR ''-'' # s \<noteq> str_nat b"
proof
  assume "CHR ''-'' # s = str_nat b"
  then have "hd (str_nat b) = CHR ''-''" by (metis list.sel(1))
  then show False using str_nat_hd_not_minus by blast
qed

lemma str_int_inj: "str_int i = str_int j \<Longrightarrow> i = j"
proof -
  assume eq: "str_int i = str_int j"
  show ?thesis
  proof (cases "i < 0")
    case i: True
    show ?thesis
    proof (cases "j < 0")
      case True
      with i eq have "str_nat (nat (- i)) = str_nat (nat (- j))"
        by (simp add: str_int_def)
      then have "nat (- i) = nat (- j)" by (rule str_nat_inj)
      with i True show ?thesis by simp
    next
      case False
      with i eq have "CHR ''-'' # str_nat (nat (- i)) = str_nat (nat j)"
        by (simp add: str_int_def)
      then show ?thesis using minus_not_str_nat by blast
    qed
  next
    case i: False
    show ?thesis
    proof (cases "j < 0")
      case True
      with i eq have "CHR ''-'' # str_nat (nat (- j)) = str_nat (nat i)"
        by (simp add: str_int_def)
      then show ?thesis using minus_not_str_nat by blast
    next
      case False
      with i eq have "str_nat (nat i) = str_nat (nat j)"
        by (simp add: str_int_def)
      then have "nat i = nat j" by (rule str_nat_inj)
      with i False show ?thesis by simp
    qed
  qed
qed

lemma str_int_eq_iff [simp]: "str_int i = str_int j \<longleftrightarrow> i = j"
  using str_int_inj by auto

section \<open>Lemmas on the helper functions\<close>

lemma quarter_increment_unfold:
  "quarter_increment ug tag_list fy =
     (case tag_observations ug tag_list of
        None \<Rightarrow> no_increments
      | Some arr \<Rightarrow> increments_of arr fy)"
  by (simp add: quarter_increment_def tag_observations_def split: option.splits)

lemma increments_of_Q1: "Q1 (increments_of arr fy) = pick_val arr fy ''Q1''"
  by (simp add: increments_of_def Let_def)

lemma increments_of_FY: "FY (increments_of arr fy) = pick_val arr fy ''FY''"
  by (simp add: increments_of_def Let_def)

lemma increments_of_Q2:
  "Q2 (increments_of arr fy) =
     (case pick_val arr fy ''Q2'' of
        None \<Rightarrow> None
      | Some b \<Rightarrow> (case pick_val arr fy ''Q1'' of None \<Rightarrow> Some b | Some a \<Rightarrow> Some (b - a)))"
  by (simp add: increments_of_def Let_def split: option.splits)

lemma increments_of_Q3:
  "Q3 (increments_of arr fy) =
     (case pick_val arr fy ''Q3'' of
        None \<Rightarrow> None
      | Some c \<Rightarrow> (case pick_val arr fy ''Q2'' of None \<Rightarrow> Some c | Some b \<Rightarrow> Some (c - b)))"
  by (simp add: increments_of_def Let_def split: option.splits)

lemma increments_of_Q4:
  "Q4 (increments_of arr fy) =
     (let r = increments_of arr fy
      in if FY r \<noteq> None \<and> Q1 r \<noteq> None \<and> Q2 r \<noteq> None \<and> Q3 r \<noteq> None
         then Some (or_zero (FY r) - or_zero (Q1 r) - or_zero (Q2 r) - or_zero (Q3 r))
         else (case pick_val arr fy ''Q4'' of None \<Rightarrow> FY r | Some d \<Rightarrow> Some d))"
  by (auto simp add: increments_of_def Let_def split: option.splits)

lemma pick_key_le:
  "pick_key x \<le> pick_key w \<longleftrightarrow>
     end_or_empty x < end_or_empty w \<or>
     (end_or_empty x = end_or_empty w \<and> val_or_zero x \<le> val_or_zero w)"
  by (auto simp add: pick_key_def)

lemma pick_val_winner:
  assumes "candidates arr fy fp \<noteq> []"
  shows "\<exists>w\<in>set (candidates arr fy fp).
           pick_val arr fy fp = obs_val w \<and>
           (\<forall>x\<in>set (candidates arr fy fp). pick_key x \<le> pick_key w)"
proof -
  let ?w = "last (sort_key pick_key (candidates arr fy fp))"
  have "?w \<in> set (candidates arr fy fp)"
    using assms by (rule last_sort_key_mem)
  moreover have "pick_val arr fy fp = obs_val ?w"
    using assms by (simp add: pick_val_def Let_def)
  moreover have "\<forall>x\<in>set (candidates arr fy fp). pick_key x \<le> pick_key ?w"
    by (simp add: last_sort_key_greatest)
  ultimately show ?thesis by blast
qed

lemma pick_val_of_two:
  assumes "set (candidates arr fy fp) = {a, b}"
    and "pick_key a < pick_key b"
  shows "pick_val arr fy fp = obs_val b"
proof -
  have ne: "candidates arr fy fp \<noteq> []" using assms(1) by auto
  from pick_val_winner [OF ne] obtain w where
    w: "w \<in> set (candidates arr fy fp)" "pick_val arr fy fp = obs_val w"
       "\<forall>x\<in>set (candidates arr fy fp). pick_key x \<le> pick_key w"
    by blast
  have "w \<noteq> a \<or> a = b"
  proof (rule ccontr)
    assume "\<not> (w \<noteq> a \<or> a = b)"
    then have "w = a" by simp
    moreover have "pick_key b \<le> pick_key w" using w(3) assms(1) by simp
    ultimately show False using assms(2) by simp
  qed
  then have "w = b" using w(1) assms(1) by auto
  then show ?thesis using w(2) by simp
qed

lemma debt_tags:
  "tags_of INSTANT_TAGS ''debt_lt_nc'' = [''LongTermDebtNoncurrent'']"
  "tags_of INSTANT_TAGS ''debt_lt_cur'' = [''LongTermDebtCurrent'']"
  "tags_of INSTANT_TAGS ''debt_st'' = [''ShortTermBorrowings'']"
  by (simp_all add: tags_of_def INSTANT_TAGS_def)

lemma sum_of_present:
  "(let values = List.map_filter (\<lambda>v. v) [a, b, c]
    in if values = [] then None else Some (sum_list values)) =
   (if a = None \<and> b = None \<and> c = None then None
    else Some (or_zero a + or_zero b + or_zero c))"
  by (cases a; cases b; cases c) simp_all

section \<open>Lemmas on the rows\<close>

lemma make_row_sel:
  "ticker (make_row ug tk ck fy fq revenue) = tk"
  "cik (make_row ug tk ck fy fq revenue) = ck"
  "r_fy (make_row ug tk ck fy fq revenue) = fy"
  "r_fq (make_row ug tk ck fy fq revenue) = fq"
  by (simp_all add: make_row_def)

lemma col_make_row_revenue: "col (make_row ug tk ck fy fq revenue) ''revenue'' = revenue"
  by (cases revenue) (simp_all add: col_def make_row_def)

lemma col_make_row_net_income:
  "col (make_row ug tk ck fy fq revenue) ''net_income'' =
     quarter_of (duration_data ug fy ''net_income'') fq"
  by (cases "quarter_of (duration_data ug fy ''net_income'') fq")
     (simp_all add: col_def make_row_def duration_keys_def)

lemma add_growth_sel:
  "ticker (add_growth r g) = ticker r"
  "cik (add_growth r g) = cik r"
  "r_fy (add_growth r g) = r_fy r"
  "r_fq (add_growth r g) = r_fq r"
  "sales_growth (add_growth r g) = fst g"
  "earning_growth (add_growth r g) = snd g"
  "col (add_growth r g) key = col r key"
  by (simp_all add: add_growth_def col_def)

lemma map_of_fill:
  "map_of (map (\<lambda>(key, v). (key, g key v)) xs) k = map_option (g k) (map_of xs k)"
  by (induction xs) auto

lemma fill_zero_sel:
  "ticker (fill_zero n r) = ticker r"
  "cik (fill_zero n r) = cik r"
  "r_fy (fill_zero n r) = r_fy r"
  "r_fq (fill_zero n r) = r_fq r"
  "sales_growth (fill_zero n r) = sales_growth r"
  "earning_growth (fill_zero n r) = earning_growth r"
  "col (fill_zero (filter (\<lambda>c. c \<noteq> ''revenue'') m) r) ''revenue'' = col r ''revenue''"
  by (simp_all add: fill_zero_def col_def map_of_fill split: option.splits)

lemma revenue_tags:
  "tags_of DURATION_TAGS ''revenue'' =
     [''RevenueFromContractWithCustomerExcludingAssessedTax'', ''SalesRevenueNet'', ''Revenues'']"
  by (simp add: tags_of_def DURATION_TAGS_def)

lemma duration_data_revenue:
  "duration_data ug fy ''revenue'' =
     quarter_increment ug [''RevenueFromContractWithCustomerExcludingAssessedTax'',
                           ''SalesRevenueNet'', ''Revenues''] fy"
  by (simp add: duration_data_def revenue_tags)

lemma duration_data_net_income:
  "duration_data ug fy ''net_income'' = quarter_increment ug [''NetIncomeLoss'', ''ProfitLoss''] fy"
  by (simp add: duration_data_def tags_of_def DURATION_TAGS_def)

lemma quarter_rows_revenue:
  assumes "r \<in> set (quarter_rows ug usd_only rev_unit tk ck fy fq)"
  shows "\<exists>v. col r ''revenue'' = Some v \<and> v \<noteq> 0"
  using assms
  by (auto simp add: quarter_rows_def Let_def col_make_row_revenue split: if_splits)

lemma collect_rows_revenue:
  assumes "r \<in> set (collect_rows ticker_map fetch tickers start_year end_year usd_only)"
  shows "\<exists>v. col r ''revenue'' = Some v \<and> v \<noteq> 0"
proof -
  from assms obtain ug usd rev_unit tk ck fy fq where
    "r \<in> set (quarter_rows ug usd rev_unit tk ck fy fq)"
    by (auto simp add: collect_rows_def ticker_rows_def year_rows_def
        split: option.splits if_splits)
  then show ?thesis by (rule quarter_rows_revenue)
qed

text \<open>
  The growth columns, on the frame they are computed on: the entry of a row is the cleaned
  percent change from the latest row before it with the same ticker, and 0 when there
  is none.
\<close>

lemma replace_fillna_pct_change:
  "replace_fillna (pct_change cur prev) =
     (case (cur, prev) of
        (Some c, Some p) \<Rightarrow> if p = 0 then 0 else (c - p) / p
      | _ \<Rightarrow> 0)"
  by (simp add: pct_change_def diff_divide_distrib split: option.splits)

lemma length_group_shift: "length (group_shift seen xs) = length xs"
  by (induction seen xs rule: group_shift.induct) simp_all

lemma group_shift_nth:
  "i < length xs \<Longrightarrow>
   group_shift seen xs ! i =
     (case map_of (rev (take i xs) @ seen) (fst (xs ! i)) of None \<Rightarrow> None | Some pv \<Rightarrow> pv)"
proof (induction seen xs arbitrary: i rule: group_shift.induct)
  case (1 seen)
  then show ?case by simp
next
  case (2 seen g v rest)
  show ?case
  proof (cases i)
    case 0
    then show ?thesis by simp
  next
    case (Suc j)
    with "2.prems" have "j < length rest" by simp
    from "2.IH" [OF this] Suc show ?thesis by simp
  qed
qed

lemma growth_nth:
  assumes "i < length df"
  shows "growth df key ! i =
     replace_fillna
       (pct_change (col (df ! i) key)
          (case map_of (rev (take i (map (\<lambda>r. (ticker r, col r key)) df))) (ticker (df ! i)) of
             None \<Rightarrow> None
           | Some pv \<Rightarrow> pv))"
  using assms
  by (simp add: growth_def Let_def length_group_shift group_shift_nth)

lemma growth_first_row:
  assumes "i < length df" and "\<forall>j<i. ticker (df ! j) \<noteq> ticker (df ! i)"
  shows "growth df key ! i = 0"
proof -
  have "ticker (df ! i) \<notin> fst ` set (rev (take i (map (\<lambda>r. (ticker r, col r key)) df)))"
    using assms by (auto simp add: in_set_conv_nth)
  then have "map_of (rev (take i (map (\<lambda>r. (ticker r, col r key)) df))) (ticker (df ! i)) = None"
    by (simp add: map_of_eq_None_iff)
  then show ?thesis
    using assms(1) by (simp add: growth_nth pct_change_def split: option.splits)
qed

lemma growth_next_row:
  assumes "Suc i < length df" and "ticker (df ! i) = ticker (df ! Suc i)"
  shows "growth df key ! Suc i =
     replace_fillna (pct_change (col (df ! Suc i) key) (col (df ! i) key))"
proof -
  from assms(1) have "take (Suc i) (map (\<lambda>r. (ticker r, col r key)) df) =
      take i (map (\<lambda>r. (ticker r, col r key)) df) @ [(ticker (df ! i), col (df ! i) key)]"
    by (simp add: take_Suc_conv_app_nth)
  then show ?thesis
    using assms by (simp add: growth_nth)
qed

lemma length_growth: "length (growth df key) = length df"
  by (simp add: growth_def Let_def length_group_shift)

lemma with_growth_length: "length (with_growth df) = length df"
  by (simp add: with_growth_def length_growth)

lemma with_growth_nth:
  assumes "i < length df"
  shows "with_growth df ! i =
     add_growth (df ! i) (growth df ''revenue'' ! i, growth df ''net_income'' ! i)"
  using assms by (simp add: with_growth_def length_growth)

text \<open>
  In the sorted frame the tickers ascend, so a row that does not follow a row of its own
  ticker has no row of its ticker before it.
\<close>

lemma sorted_frame_tickers:
  assumes "j \<le> i" and "i < length (sorted_frame rows)"
  shows "ticker (sorted_frame rows ! j) \<le> ticker (sorted_frame rows ! i)"
proof -
  let ?key = "\<lambda>r::row. (ticker r, r_fy r, r_fq r)"
  have "sorted (map ?key (sorted_frame rows))"
    by (simp add: sorted_frame_def)
  moreover have "i < length (map ?key (sorted_frame rows))" using assms(2) by simp
  ultimately have "map ?key (sorted_frame rows) ! j \<le> map ?key (sorted_frame rows) ! i"
    using assms(1) by (intro sorted_nth_mono)
  then have "?key (sorted_frame rows ! j) \<le> ?key (sorted_frame rows ! i)"
    using assms by simp
  then show ?thesis by auto
qed

lemma sorted_frame_first_row:
  assumes "i < length (sorted_frame rows)"
    and "i = 0 \<or> ticker (sorted_frame rows ! (i - 1)) \<noteq> ticker (sorted_frame rows ! i)"
    and "j < i"
  shows "ticker (sorted_frame rows ! j) \<noteq> ticker (sorted_frame rows ! i)"
proof -
  from assms(3) have pos: "i \<noteq> 0" and j: "j \<le> i - 1" by simp_all
  with assms(2) have ne: "ticker (sorted_frame rows ! (i - 1)) \<noteq> ticker (sorted_frame rows ! i)"
    by simp
  have "i - 1 < length (sorted_frame rows)" using assms(1) by simp
  with j have a: "ticker (sorted_frame rows ! j) \<le> ticker (sorted_frame rows ! (i - 1))"
    by (intro sorted_frame_tickers)
  have b: "ticker (sorted_frame rows ! (i - 1)) \<le> ticker (sorted_frame rows ! i)"
    using assms(1) by (intro sorted_frame_tickers) simp_all
  from a b ne show ?thesis by auto
qed

lemma upper_acme: "upper ''acme'' = ''ACME''"
  by (simp add: upper_def upper_char_def char_of_eq_iff)

section \<open>Lemmas on floats\<close>

lemma round_half_even_of_int: "round_half_even (of_int k) = k"
  by (simp add: round_half_even_def)

lemma length_double_exponents: "length double_exponents = 2046"
  unfolding double_exponents_def length_upto by simp

lemma nth_double_exponents:
  assumes "k < 2046"
  shows "double_exponents ! k = - 1074 + int k"
proof -
  from assms have "- 1074 + int k \<le> 971" by simp
  then show ?thesis
    unfolding double_exponents_def by (rule nth_upto)
qed

lemma double_exponent_eq:
  assumes "- 1074 \<le> e" and "e \<le> 971"
    and "\<bar>x\<bar> < 2 powi (e + 53)"
    and "e = - 1074 \<or> 2 powi (e + 52) \<le> \<bar>x\<bar>"
  shows "double_exponent x = Some e"
proof -
  let ?P = "\<lambda>e. \<bar>x\<bar> < 2 powi (e + 53)"
  let ?i = "nat (e + 1074)"
  have len: "?i < 2046" using assms(1,2) by simp
  have at: "double_exponents ! ?i = e"
    using nth_double_exponents [OF len] assms(1) by simp
  have before: "\<not> ?P (double_exponents ! j)" if "j < ?i" for j
  proof -
    from that len have j: "j < 2046" by simp
    from that assms(1) have lt: "- 1074 + int j < e" by linarith
    then have "e \<noteq> - 1074" by simp
    with assms(4) have le: "2 powi (e + 52) \<le> \<bar>x\<bar>" by simp
    from lt have "(2::rat) powi (- 1074 + int j + 53) \<le> 2 powi (e + 52)"
      by (intro power_int_increasing) simp_all
    with le have "\<not> \<bar>x\<bar> < 2 powi (- 1074 + int j + 53)" by simp
    then show ?thesis unfolding nth_double_exponents [OF j] .
  qed
  have "?i < length double_exponents \<and> ?P (double_exponents ! ?i) \<and>
      e = double_exponents ! ?i \<and> (\<forall>j<?i. \<not> ?P (double_exponents ! j))"
    using len assms(3) before by (simp only: length_double_exponents at) simp
  then have "\<exists>i<length double_exponents. ?P (double_exponents ! i) \<and>
      e = double_exponents ! i \<and> (\<forall>j<i. \<not> ?P (double_exponents ! j))"
    by blast
  then show ?thesis
    unfolding double_exponent_def find_Some_iff .
qed

lemma double_exponent_small:
  assumes "\<bar>x\<bar> < 2 ^ 53"
  shows "\<exists>e. double_exponent x = Some e \<and> - 1074 \<le> e \<and> e \<le> 0"
proof -
  let ?P = "\<lambda>e. \<bar>x\<bar> < 2 powi (e + 53)"
  have P0: "?P 0" using assms by simp
  have z: "double_exponents ! 1074 = 0"
    using nth_double_exponents [of 1074] by simp
  have "1074 < length double_exponents"
    unfolding length_double_exponents by simp
  then have "double_exponents ! 1074 \<in> set double_exponents"
    by (rule nth_mem)
  then have "(0::int) \<in> set double_exponents"
    unfolding z .
  with P0 have "find ?P double_exponents \<noteq> None"
    unfolding find_None_iff by blast
  then obtain e where e: "find ?P double_exponents = Some e" by blast
  then obtain i where i: "i < length double_exponents" "e = double_exponents ! i"
      "\<forall>j<i. \<not> ?P (double_exponents ! j)"
    unfolding find_Some_iff by blast
  have "i \<le> 1074"
  proof (rule ccontr)
    assume "\<not> i \<le> 1074"
    then have "1074 < i" by simp
    with i(3) have "\<not> ?P (double_exponents ! 1074)" by blast
    then have "\<not> ?P 0" unfolding z .
    then show False using P0 by blast
  qed
  moreover from i(1) have "i < 2046" by (simp only: length_double_exponents)
  ultimately have "- 1074 \<le> e \<and> e \<le> 0"
    using i(2) nth_double_exponents [of i] by simp
  with e show ?thesis by (simp add: double_exponent_def)
qed

lemma round_double_int:
  assumes "x \<in> \<int>" and "\<bar>x\<bar> < 2 ^ 53"
  shows "round_double x = x"
proof -
  from double_exponent_small [OF assms(2)] obtain e where
    e: "double_exponent x = Some e" "- 1074 \<le> e" "e \<le> 0" by blast
  from assms(1) obtain k where k: "x = of_int k" by (auto elim: Ints_cases)
  have p: "(2::rat) powi e = 1 / 2 ^ nat (- e)"
    using e(3) by (auto simp add: power_int_def inverse_eq_divide power_one_over)
  have "x / 2 powi e = of_int (k * 2 ^ nat (- e))"
    by (simp add: p k)
  then have "round_half_even (x / 2 powi e) = k * 2 ^ nat (- e)"
    by (simp only: round_half_even_of_int)
  moreover have "round_double x = of_int (round_half_even (x / 2 powi e)) * 2 powi e"
    by (simp add: round_double_def e(1))
  ultimately show ?thesis
    by (simp add: p k)
qed

lemma round_half_even_eq:
  assumes "of_int m - 1 / 2 < x" and "x < of_int m + 1 / 2"
  shows "round_half_even x = m"
proof (cases "of_int m \<le> x")
  case True
  with assms(2) have "\<lfloor>x\<rfloor> = m" by (intro floor_unique) simp_all
  with assms(2) show ?thesis by (simp add: round_half_even_def)
next
  case False
  with assms(1) have "\<lfloor>x\<rfloor> = m - 1" by (intro floor_unique) simp_all
  with assms(1) show ?thesis by (simp add: round_half_even_def)
qed

lemma round_half_even_tie:
  assumes "x = of_int k + 1 / 2"
  shows "round_half_even x = (if even k then k else k + 1)"
proof -
  have "\<lfloor>x\<rfloor> = k" unfolding assms by (intro floor_unique) simp_all
  then show ?thesis by (simp add: round_half_even_def assms)
qed

lemma round_double_eq:
  assumes "- 1074 \<le> e" and "e \<le> 971"
    and "\<bar>x\<bar> < 2 powi (e + 53)"
    and "e = - 1074 \<or> 2 powi (e + 52) \<le> \<bar>x\<bar>"
    and "of_int m - 1 / 2 < x / 2 powi e" and "x / 2 powi e < of_int m + 1 / 2"
  shows "round_double x = of_int m * 2 powi e"
proof -
  have "double_exponent x = Some e"
    using assms(1-4) by (rule double_exponent_eq)
  moreover have "round_half_even (x / 2 powi e) = m"
    using assms(5,6) by (rule round_half_even_eq)
  ultimately show ?thesis by (simp add: round_double_def)
qed

lemma round_double_tie:
  assumes "- 1074 \<le> e" and "e \<le> 971"
    and "\<bar>x\<bar> < 2 powi (e + 53)"
    and "e = - 1074 \<or> 2 powi (e + 52) \<le> \<bar>x\<bar>"
    and "x / 2 powi e = of_int k + 1 / 2"
  shows "round_double x = of_int (if even k then k else k + 1) * 2 powi e"
proof -
  have "double_exponent x = Some e"
    using assms(1-4) by (rule double_exponent_eq)
  moreover have "round_half_even (x / 2 powi e) = (if even k then k else k + 1)"
    using assms(5) by (rule round_half_even_tie)
  ultimately show ?thesis by (simp add: round_double_def)
qed

lemma float_sub_int:
  assumes "a \<in> \<int>" and "b \<in> \<int>" and "\<bar>a - b\<bar> < 2 ^ 53"
  shows "float_sub a b = a - b"
  unfolding float_sub_def using assms by (intro round_double_int Ints_diff)

lemma increments_of_with: "increments_of arr fy = increments_with (\<lambda>a b. a - b) arr fy"
  by (simp add: increments_of_def increments_with_def)

lemma quarter_increment_with_unfold:
  "quarter_increment_with sub ug tag_list fy =
     (case tag_observations ug tag_list of
        None \<Rightarrow> no_increments
      | Some arr \<Rightarrow> increments_with sub arr fy)"
  by (simp add: quarter_increment_with_def tag_observations_def split: option.splits)

lemma quarter_increment_with_exact:
  "quarter_increment ug tag_list fy = quarter_increment_with (\<lambda>a b. a - b) ug tag_list fy"
  by (simp add: quarter_increment_unfold quarter_increment_with_unfold increments_of_with
      split: option.splits)

lemma increments_with_full:
  assumes "pick_val arr fy ''Q1'' = Some y1"
    and "pick_val arr fy ''Q2'' = Some y2"
    and "pick_val arr fy ''Q3'' = Some y3"
    and "pick_val arr fy ''FY'' = Some f"
  shows "increments_with sub arr fy =
     \<lparr>Q1 = Some y1, Q2 = Some (sub y2 y1), Q3 = Some (sub y3 y2),
      Q4 = Some (sub (sub (sub f y1) (sub y2 y1)) (sub y3 y2)), FY = Some f\<rparr>"
  using assms by (simp add: increments_with_def Let_def)

lemma eps_tags:
  "tags_of DURATION_TAGS ''eps_diluted'' =
     [''EarningsPerShareDiluted'', ''EarningsPerShareBasicAndDiluted'']"
  by (simp add: tags_of_def DURATION_TAGS_def)

text \<open>The equations that evaluate the model on the example fact sets.\<close>

lemmas increment_defs =
  is_candidate_def candidates_def end_or_empty_def val_or_zero_def
  pick_key_def pick_val_def no_increments_def first_tag_def increments_of_def
  quarter_increment_def quarter_instant_def tag_observations_def Let_def

lemmas row_simps =
  make_row_sel col_make_row_revenue col_make_row_net_income add_growth_sel fill_zero_sel
  duration_data_revenue duration_data_net_income revenue_tags upper_acme

lemmas frame_defs =
  quarter_of_def quarter_rows_def year_rows_def revenue_unit_def ticker_rows_def
  collect_rows_def pct_change_def growth_def final_check_def
  sorted_frame_def with_growth_def build_quarterly_def

lemmas example_defs =
  reported_def full_year_revenue_def full_year_facts_def partial_year_revenue_def
  partial_year_facts_def falling_year_facts_def debt_facts_def later_filing_def
  earlier_filing_def larger_filing_def valueless_def one_ticker_def fetch_full_year_def
  fetch_partial_year_def fetch_falling_year_def eps_observations_def eps_facts_def
  zero_income_facts_def fetch_zero_income_def

section \<open>The claims\<close>

text \<open>
  C1. Every row of the panel that \<open>build_quarterly\<close> returns has a revenue that is
  present and strictly greater than zero. And every row accepted into the list \<open>rows\<close>
  has a revenue that is present and not zero.
\<close>

theorem build_quarterly_revenue_positive:
  "(\<forall>r\<in>set (build_quarterly ticker_map fetch tickers start_year end_year usd_only).
      \<exists>v. col r ''revenue'' = Some v \<and> 0 < v) \<and>
   (\<forall>r\<in>set (collect_rows ticker_map fetch tickers start_year end_year usd_only).
      \<exists>v. col r ''revenue'' = Some v \<and> v \<noteq> 0)"
proof (intro conjI ballI)
  fix r
  assume "r \<in> set (build_quarterly ticker_map fetch tickers start_year end_year usd_only)"
  then obtain r' m where r': "final_check r'" "r = fill_zero (filter (\<lambda>c. c \<noteq> ''revenue'') m) r'"
    by (auto simp add: build_quarterly_def Let_def split: if_splits)
  from r'(1) obtain v where "col r' ''revenue'' = Some v" "0 < v"
    by (auto simp add: final_check_def split: option.splits)
  then show "\<exists>v. col r ''revenue'' = Some v \<and> 0 < v"
    using r'(2) by (simp add: fill_zero_sel)
next
  fix r
  assume "r \<in> set (collect_rows ticker_map fetch tickers start_year end_year usd_only)"
  then show "\<exists>v. col r ''revenue'' = Some v \<and> v \<noteq> 0"
    by (rule collect_rows_revenue)
qed

theorem build_quarterly_revenue_positive_witness:
  "map r_fq (build_quarterly one_ticker fetch_full_year [''acme''] 2020 2020 True) =
     [''Q1'', ''Q2'', ''Q3'', ''Q4''] \<and>
   (\<exists>v. col (hd (build_quarterly one_ticker fetch_full_year [''acme''] 2020 2020 True))
           ''revenue'' = Some v \<and> 0 < v)"
proof -
  have q: "map r_fq (build_quarterly one_ticker fetch_full_year [''acme''] 2020 2020 True) =
      [''Q1'', ''Q2'', ''Q3'', ''Q4'']"
    by (simp add: row_simps frame_defs increment_defs example_defs)
  then have "build_quarterly one_ticker fetch_full_year [''acme''] 2020 2020 True \<noteq> []"
    by auto
  then have "hd (build_quarterly one_ticker fetch_full_year [''acme''] 2020 2020 True)
      \<in> set (build_quarterly one_ticker fetch_full_year [''acme''] 2020 2020 True)"
    by (rule hd_in_set)
  with build_quarterly_revenue_positive
    [of one_ticker fetch_full_year "[''acme'']" 2020 2020 True]
  have "\<exists>v. col (hd (build_quarterly one_ticker fetch_full_year [''acme''] 2020 2020 True))
           ''revenue'' = Some v \<and> 0 < v"
    by blast
  with q show ?thesis by simp
qed

text \<open>
  C2. The claim is that the four increments sum exactly to the full year value whenever
  the four values are present, for every duration metric. Earnings per share is a
  duration metric whose values are floats. For 0.35, 0.81 and 1.27 to date and 1.99 for
  the year the increments that the code computes are 0.35, 0.4600000000000001,
  0.45999999999999996 and 0.7200000000000002: their sum is not the full year value,
  neither as an exact sum nor as the sum that Python computes.
\<close>

theorem quarter_increments_sum_to_FY_counterexample:
  "tag_observations eps_facts (tags_of DURATION_TAGS ''eps_diluted'') = Some eps_observations \<and>
   pick_val eps_observations 2020 ''Q1'' = Some (3152519739159347 / 2 ^ 53) \<and>
   pick_val eps_observations 2020 ''Q2'' = Some (1823957849085051 / 2 ^ 51) \<and>
   pick_val eps_observations 2020 ''Q3'' = Some (2859785763380265 / 2 ^ 51) \<and>
   pick_val eps_observations 2020 ''FY'' = Some (8962163258467287 / 2 ^ 52) \<and>
   quarter_increment_with float_sub eps_facts (tags_of DURATION_TAGS ''eps_diluted'') 2020 =
     \<lparr>Q1 = Some (3152519739159347 / 2 ^ 53), Q2 = Some (4143311657180857 / 2 ^ 53),
      Q3 = Some (517913957147607 / 2 ^ 50), Q4 = Some (1621295865853379 / 2 ^ 51),
      FY = Some (8962163258467287 / 2 ^ 52)\<rparr> \<and>
   3152519739159347 / 2 ^ 53 + 4143311657180857 / 2 ^ 53 + 517913957147607 / 2 ^ 50
     + 1621295865853379 / 2 ^ 51 \<noteq> (8962163258467287 / 2 ^ 52 :: rat) \<and>
   float_add (float_add (float_add (3152519739159347 / 2 ^ 53) (4143311657180857 / 2 ^ 53))
                        (517913957147607 / 2 ^ 50))
             (1621295865853379 / 2 ^ 51) \<noteq> 8962163258467287 / 2 ^ 52"
proof -
  have y1: "round_double (35 / 100) = 3152519739159347 / 2 ^ 53"
  proof -
    have "round_double (35 / 100) = of_int 6305039478318694 * 2 powi (- 54)"
      by (rule round_double_eq) (simp_all add: power_int_minus_divide)
    then show ?thesis by (simp add: power_int_minus_divide)
  qed
  have y2: "round_double (81 / 100) = 1823957849085051 / 2 ^ 51"
  proof -
    have "round_double (81 / 100) = of_int 7295831396340204 * 2 powi (- 53)"
      by (rule round_double_eq) (simp_all add: power_int_minus_divide)
    then show ?thesis by (simp add: power_int_minus_divide)
  qed
  have y3: "round_double (127 / 100) = 2859785763380265 / 2 ^ 51"
  proof -
    have "round_double (127 / 100) = of_int 5719571526760530 * 2 powi (- 52)"
      by (rule round_double_eq) (simp_all add: power_int_minus_divide)
    then show ?thesis by (simp add: power_int_minus_divide)
  qed
  have f: "round_double (199 / 100) = 8962163258467287 / 2 ^ 52"
  proof -
    have "round_double (199 / 100) = of_int 8962163258467287 * 2 powi (- 52)"
      by (rule round_double_eq) (simp_all add: power_int_minus_divide)
    then show ?thesis by (simp add: power_int_minus_divide)
  qed
  have q2: "float_sub (1823957849085051 / 2 ^ 51) (3152519739159347 / 2 ^ 53) =
      4143311657180857 / 2 ^ 53"
  proof -
    have "round_double (1823957849085051 / 2 ^ 51 - 3152519739159347 / 2 ^ 53) =
        of_int 8286623314361714 * 2 powi (- 54)"
      by (rule round_double_eq) (simp_all add: power_int_minus_divide)
    then show ?thesis by (simp add: float_sub_def power_int_minus_divide)
  qed
  have q3: "float_sub (2859785763380265 / 2 ^ 51) (1823957849085051 / 2 ^ 51) =
      517913957147607 / 2 ^ 50"
  proof -
    have "round_double (2859785763380265 / 2 ^ 51 - 1823957849085051 / 2 ^ 51) =
        of_int 8286623314361712 * 2 powi (- 54)"
      by (rule round_double_eq) (simp_all add: power_int_minus_divide)
    then show ?thesis by (simp add: float_sub_def power_int_minus_divide)
  qed
  have t1: "float_sub (8962163258467287 / 2 ^ 52) (3152519739159347 / 2 ^ 53) =
      3692951694443807 / 2 ^ 51"
  proof -
    have "round_double (8962163258467287 / 2 ^ 52 - 3152519739159347 / 2 ^ 53) =
        of_int (if even (7385903388887613::int) then 7385903388887613
                else 7385903388887613 + 1) * 2 powi (- 52)"
      by (rule round_double_tie) (simp_all add: power_int_minus_divide)
    then show ?thesis by (simp add: float_sub_def power_int_minus_divide)
  qed
  have t2: "float_sub (3692951694443807 / 2 ^ 51) (4143311657180857 / 2 ^ 53) =
      2657123780148593 / 2 ^ 51"
  proof -
    have "round_double (3692951694443807 / 2 ^ 51 - 4143311657180857 / 2 ^ 53) =
        of_int (if even (5314247560297185::int) then 5314247560297185
                else 5314247560297185 + 1) * 2 powi (- 52)"
      by (rule round_double_tie) (simp_all add: power_int_minus_divide)
    then show ?thesis by (simp add: float_sub_def power_int_minus_divide)
  qed
  have q4: "float_sub (2657123780148593 / 2 ^ 51) (517913957147607 / 2 ^ 50) =
      1621295865853379 / 2 ^ 51"
  proof -
    have "round_double (2657123780148593 / 2 ^ 51 - 517913957147607 / 2 ^ 50) =
        of_int 6485183463413516 * 2 powi (- 53)"
      by (rule round_double_eq) (simp_all add: power_int_minus_divide)
    then show ?thesis by (simp add: float_sub_def power_int_minus_divide)
  qed
  have s1: "float_add (3152519739159347 / 2 ^ 53) (4143311657180857 / 2 ^ 53) =
      1823957849085051 / 2 ^ 51"
  proof -
    have "round_double (3152519739159347 / 2 ^ 53 + 4143311657180857 / 2 ^ 53) =
        of_int 7295831396340204 * 2 powi (- 53)"
      by (rule round_double_eq) (simp_all add: power_int_minus_divide)
    then show ?thesis by (simp add: float_add_def power_int_minus_divide)
  qed
  have s2: "float_add (1823957849085051 / 2 ^ 51) (517913957147607 / 2 ^ 50) =
      2859785763380265 / 2 ^ 51"
  proof -
    have "round_double (1823957849085051 / 2 ^ 51 + 517913957147607 / 2 ^ 50) =
        of_int 5719571526760530 * 2 powi (- 52)"
      by (rule round_double_eq) (simp_all add: power_int_minus_divide)
    then show ?thesis by (simp add: float_add_def power_int_minus_divide)
  qed
  have s3: "float_add (2859785763380265 / 2 ^ 51) (1621295865853379 / 2 ^ 51) =
      1120270407308411 / 2 ^ 49"
  proof -
    have "round_double (2859785763380265 / 2 ^ 51 + 1621295865853379 / 2 ^ 51) =
        of_int 8962163258467288 * 2 powi (- 52)"
      by (rule round_double_eq) (simp_all add: power_int_minus_divide)
    then show ?thesis by (simp add: float_add_def power_int_minus_divide)
  qed
  have obs: "eps_observations =
     [reported 2020 ''Q1'' ''2020-03-31'' (3152519739159347 / 2 ^ 53),
      reported 2020 ''Q2'' ''2020-06-30'' (1823957849085051 / 2 ^ 51),
      reported 2020 ''Q3'' ''2020-09-30'' (2859785763380265 / 2 ^ 51),
      reported 2020 ''FY'' ''2020-12-31'' (8962163258467287 / 2 ^ 52)]"
    unfolding eps_observations_def y1 y2 y3 f ..
  have t: "tag_observations eps_facts (tags_of DURATION_TAGS ''eps_diluted'') =
      Some eps_observations"
    unfolding eps_tags
    by (simp add: tag_observations_def first_tag_def eps_facts_def)
  have p1: "pick_val eps_observations 2020 ''Q1'' = Some (3152519739159347 / 2 ^ 53)"
    unfolding obs by (simp add: pick_val_def candidates_def is_candidate_def reported_def)
  have p2: "pick_val eps_observations 2020 ''Q2'' = Some (1823957849085051 / 2 ^ 51)"
    unfolding obs by (simp add: pick_val_def candidates_def is_candidate_def reported_def)
  have p3: "pick_val eps_observations 2020 ''Q3'' = Some (2859785763380265 / 2 ^ 51)"
    unfolding obs by (simp add: pick_val_def candidates_def is_candidate_def reported_def)
  have p4: "pick_val eps_observations 2020 ''FY'' = Some (8962163258467287 / 2 ^ 52)"
    unfolding obs by (simp add: pick_val_def candidates_def is_candidate_def reported_def)
  have r: "quarter_increment_with float_sub eps_facts (tags_of DURATION_TAGS ''eps_diluted'') 2020 =
     \<lparr>Q1 = Some (3152519739159347 / 2 ^ 53), Q2 = Some (4143311657180857 / 2 ^ 53),
      Q3 = Some (517913957147607 / 2 ^ 50), Q4 = Some (1621295865853379 / 2 ^ 51),
      FY = Some (8962163258467287 / 2 ^ 52)\<rparr>"
    unfolding quarter_increment_with_unfold t option.case
      increments_with_full [OF p1 p2 p3 p4] q2 q3 t1 t2 q4 ..
  have e: "3152519739159347 / 2 ^ 53 + 4143311657180857 / 2 ^ 53 + 517913957147607 / 2 ^ 50
     + 1621295865853379 / 2 ^ 51 \<noteq> (8962163258467287 / 2 ^ 52 :: rat)"
    by simp
  have s: "float_add (float_add (float_add (3152519739159347 / 2 ^ 53) (4143311657180857 / 2 ^ 53))
                        (517913957147607 / 2 ^ 50))
             (1621295865853379 / 2 ^ 51) \<noteq> 8962163258467287 / 2 ^ 52"
    unfolding s1 s2 s3 by simp
  from t p1 p2 p3 p4 r e s show ?thesis by blast
qed

text \<open>
  C2 as amended. When the four values are present, the increments are the Q1 value, the
  Q2 value minus the Q1 value, the Q3 value minus the Q2 value, and the full year value
  minus the three increments, each subtraction as Python computes it. With exact
  subtraction (Python integers) the four sum exactly to the full year value. So they do
  with the subtraction of floats when the four values are whole numbers of magnitude at
  most \<open>2^50\<close>, as the amounts in dollars are.
\<close>

theorem quarter_increments_sum_to_FY_exact:
  assumes "tag_observations ug tag_list = Some arr"
    and "pick_val arr fy ''Q1'' = Some y1"
    and "pick_val arr fy ''Q2'' = Some y2"
    and "pick_val arr fy ''Q3'' = Some y3"
    and "pick_val arr fy ''FY'' = Some f"
  shows "(\<exists>a b c d. quarter_increment ug tag_list fy =
            \<lparr>Q1 = Some a, Q2 = Some b, Q3 = Some c, Q4 = Some d, FY = Some f\<rparr> \<and>
            a = y1 \<and> b = y2 - y1 \<and> c = y3 - y2 \<and> d = f - a - b - c \<and>
            a + b + c + d = f) \<and>
         quarter_increment_with float_sub ug tag_list fy =
            \<lparr>Q1 = Some y1, Q2 = Some (float_sub y2 y1), Q3 = Some (float_sub y3 y2),
             Q4 = Some (float_sub (float_sub (float_sub f y1) (float_sub y2 y1))
                                  (float_sub y3 y2)),
             FY = Some f\<rparr> \<and>
         (y1 \<in> \<int> \<and> y2 \<in> \<int> \<and> y3 \<in> \<int> \<and> f \<in> \<int> \<and>
          \<bar>y1\<bar> \<le> 2 ^ 50 \<and> \<bar>y2\<bar> \<le> 2 ^ 50 \<and> \<bar>y3\<bar> \<le> 2 ^ 50 \<and> \<bar>f\<bar> \<le> 2 ^ 50 \<longrightarrow>
          (\<exists>a b c d. quarter_increment_with float_sub ug tag_list fy =
             \<lparr>Q1 = Some a, Q2 = Some b, Q3 = Some c, Q4 = Some d, FY = Some f\<rparr> \<and>
             a = y1 \<and> b = y2 - y1 \<and> c = y3 - y2 \<and> d = f - a - b - c \<and>
             a + b + c + d = f))"
proof (intro conjI impI)
  have "quarter_increment ug tag_list fy =
      \<lparr>Q1 = Some y1, Q2 = Some (y2 - y1), Q3 = Some (y3 - y2),
       Q4 = Some (f - y1 - (y2 - y1) - (y3 - y2)), FY = Some f\<rparr>"
    unfolding quarter_increment_with_exact quarter_increment_with_unfold assms(1) option.case
    by (rule increments_with_full [OF assms(2-5)])
  then show "\<exists>a b c d. quarter_increment ug tag_list fy =
            \<lparr>Q1 = Some a, Q2 = Some b, Q3 = Some c, Q4 = Some d, FY = Some f\<rparr> \<and>
            a = y1 \<and> b = y2 - y1 \<and> c = y3 - y2 \<and> d = f - a - b - c \<and>
            a + b + c + d = f"
    by simp
next
  show fl: "quarter_increment_with float_sub ug tag_list fy =
            \<lparr>Q1 = Some y1, Q2 = Some (float_sub y2 y1), Q3 = Some (float_sub y3 y2),
             Q4 = Some (float_sub (float_sub (float_sub f y1) (float_sub y2 y1))
                                  (float_sub y3 y2)),
             FY = Some f\<rparr>"
    unfolding quarter_increment_with_unfold assms(1) option.case
    by (rule increments_with_full [OF assms(2-5)])
  assume h: "y1 \<in> \<int> \<and> y2 \<in> \<int> \<and> y3 \<in> \<int> \<and> f \<in> \<int> \<and>
          \<bar>y1\<bar> \<le> 2 ^ 50 \<and> \<bar>y2\<bar> \<le> 2 ^ 50 \<and> \<bar>y3\<bar> \<le> 2 ^ 50 \<and> \<bar>f\<bar> \<le> 2 ^ 50"
  then have i: "y1 \<in> \<int>" "y2 \<in> \<int>" "y3 \<in> \<int>" "f \<in> \<int>" by simp_all
  from h have b: "\<bar>y1\<bar> \<le> 1125899906842624" "\<bar>y2\<bar> \<le> 1125899906842624"
      "\<bar>y3\<bar> \<le> 1125899906842624" "\<bar>f\<bar> \<le> 1125899906842624"
    by simp_all
  have q2: "float_sub y2 y1 = y2 - y1"
    using i b by (intro float_sub_int) simp_all
  have q3: "float_sub y3 y2 = y3 - y2"
    using i b by (intro float_sub_int) simp_all
  have t1: "float_sub f y1 = f - y1"
    using i b by (intro float_sub_int) simp_all
  have t2: "float_sub (f - y1) (y2 - y1) = f - y1 - (y2 - y1)"
    using i b by (intro float_sub_int Ints_diff) simp_all
  have q4: "float_sub (f - y1 - (y2 - y1)) (y3 - y2) = f - y1 - (y2 - y1) - (y3 - y2)"
    using i b by (intro float_sub_int Ints_diff) simp_all
  show "\<exists>a b c d. quarter_increment_with float_sub ug tag_list fy =
             \<lparr>Q1 = Some a, Q2 = Some b, Q3 = Some c, Q4 = Some d, FY = Some f\<rparr> \<and>
             a = y1 \<and> b = y2 - y1 \<and> c = y3 - y2 \<and> d = f - a - b - c \<and>
             a + b + c + d = f"
    unfolding fl q2 q3 t1 t2 q4 by simp
qed

text \<open>
  The full year of revenue gives the increments 100, 150, 170 and 180 with either
  subtraction.
\<close>

theorem quarter_increments_sum_to_FY_exact_witness:
  "quarter_increment full_year_facts [''Revenues''] 2020 =
     \<lparr>Q1 = Some 100, Q2 = Some 150, Q3 = Some 170, Q4 = Some 180, FY = Some 600\<rparr> \<and>
   quarter_increment_with float_sub full_year_facts [''Revenues''] 2020 =
     \<lparr>Q1 = Some 100, Q2 = Some 150, Q3 = Some 170, Q4 = Some 180, FY = Some 600\<rparr> \<and>
   (100 + 150 + 170 + 180 :: rat) = 600"
proof -
  have t: "tag_observations full_year_facts [''Revenues''] = Some full_year_revenue"
    by (simp add: increment_defs example_defs)
  have y1: "pick_val full_year_revenue 2020 ''Q1'' = Some 100"
    by (simp add: increment_defs example_defs)
  have y2: "pick_val full_year_revenue 2020 ''Q2'' = Some 250"
    by (simp add: increment_defs example_defs)
  have y3: "pick_val full_year_revenue 2020 ''Q3'' = Some 420"
    by (simp add: increment_defs example_defs)
  have f: "pick_val full_year_revenue 2020 ''FY'' = Some 600"
    by (simp add: increment_defs example_defs)
  have h: "(100::rat) \<in> \<int> \<and> (250::rat) \<in> \<int> \<and> (420::rat) \<in> \<int> \<and> (600::rat) \<in> \<int> \<and>
      \<bar>100::rat\<bar> \<le> 2 ^ 50 \<and> \<bar>250::rat\<bar> \<le> 2 ^ 50 \<and> \<bar>420::rat\<bar> \<le> 2 ^ 50 \<and>
      \<bar>600::rat\<bar> \<le> 2 ^ 50"
    by simp
  from quarter_increments_sum_to_FY_exact [OF t y1 y2 y3 f] h
  have "(\<exists>a b c d. quarter_increment full_year_facts [''Revenues''] 2020 =
            \<lparr>Q1 = Some a, Q2 = Some b, Q3 = Some c, Q4 = Some d, FY = Some 600\<rparr> \<and>
            a = 100 \<and> b = 250 - 100 \<and> c = 420 - 250 \<and> d = 600 - a - b - c \<and>
            a + b + c + d = 600)"
    and "(\<exists>a b c d. quarter_increment_with float_sub full_year_facts [''Revenues''] 2020 =
            \<lparr>Q1 = Some a, Q2 = Some b, Q3 = Some c, Q4 = Some d, FY = Some 600\<rparr> \<and>
            a = 100 \<and> b = 250 - 100 \<and> c = 420 - 250 \<and> d = 600 - a - b - c \<and>
            a + b + c + d = 600)"
    by blast+
  then show ?thesis by auto
qed

text \<open>
  C3. \<open>pick_val\<close> keeps the observations of the array whose fiscal period is the one
  asked for and whose fiscal year, as a string, is the one asked for: an integer year
  matches when it is that year, a string year when it is the decimal text of that year.
  With no such observation the result is \<open>None\<close>. Otherwise the candidates are sorted
  in ascending order of (period end, value) and the result is the value of the last one:
  a candidate whose key no other candidate exceeds. So of two candidates with different
  period ends the later one wins whatever the values, and of two with one period end the
  one with the larger value wins.
\<close>

theorem pick_val_latest_end_then_largest_value:
  "(\<forall>x. x \<in> set (candidates arr fy fp) \<longleftrightarrow>
         x \<in> set arr \<and> str_fy (obs_fy x) = str_int fy \<and> obs_fp x = Some fp) \<and>
   (\<forall>y. str_fy (FyInt y) = str_int fy \<longleftrightarrow> y = fy) \<and>
   (\<forall>s. str_fy (FyStr s) = str_int fy \<longleftrightarrow> s = str_int fy) \<and>
   (candidates arr fy fp = [] \<longrightarrow> pick_val arr fy fp = None) \<and>
   (candidates arr fy fp \<noteq> [] \<longrightarrow>
      sorted (map pick_key (sort_key pick_key (candidates arr fy fp))) \<and>
      pick_val arr fy fp = obs_val (last (sort_key pick_key (candidates arr fy fp))) \<and>
      (\<exists>w\<in>set (candidates arr fy fp).
         pick_val arr fy fp = obs_val w \<and>
         (\<forall>x\<in>set (candidates arr fy fp).
            end_or_empty x < end_or_empty w \<or>
            (end_or_empty x = end_or_empty w \<and> val_or_zero x \<le> val_or_zero w)))) \<and>
   (\<forall>a b. set (candidates arr fy fp) = {a, b} \<and> end_or_empty a < end_or_empty b
      \<longrightarrow> pick_val arr fy fp = obs_val b) \<and>
   (\<forall>a b. set (candidates arr fy fp) = {a, b} \<and> end_or_empty a = end_or_empty b \<and>
          val_or_zero a < val_or_zero b
      \<longrightarrow> pick_val arr fy fp = obs_val b)"
proof (intro conjI allI impI)
  fix x
  show "x \<in> set (candidates arr fy fp) \<longleftrightarrow>
         x \<in> set arr \<and> str_fy (obs_fy x) = str_int fy \<and> obs_fp x = Some fp"
    by (simp add: candidates_def is_candidate_def)
next
  fix y
  show "str_fy (FyInt y) = str_int fy \<longleftrightarrow> y = fy" by simp
next
  fix s
  show "str_fy (FyStr s) = str_int fy \<longleftrightarrow> s = str_int fy" by simp
next
  assume "candidates arr fy fp = []"
  then show "pick_val arr fy fp = None" by (simp add: pick_val_def)
next
  assume "candidates arr fy fp \<noteq> []"
  show "sorted (map pick_key (sort_key pick_key (candidates arr fy fp)))" by simp
next
  assume "candidates arr fy fp \<noteq> []"
  then show "pick_val arr fy fp = obs_val (last (sort_key pick_key (candidates arr fy fp)))"
    by (simp add: pick_val_def Let_def)
next
  assume "candidates arr fy fp \<noteq> []"
  from pick_val_winner [OF this]
  show "\<exists>w\<in>set (candidates arr fy fp).
         pick_val arr fy fp = obs_val w \<and>
         (\<forall>x\<in>set (candidates arr fy fp).
            end_or_empty x < end_or_empty w \<or>
            (end_or_empty x = end_or_empty w \<and> val_or_zero x \<le> val_or_zero w))"
    by (simp add: pick_key_le)
next
  fix a b
  assume "set (candidates arr fy fp) = {a, b} \<and> end_or_empty a < end_or_empty b"
  then show "pick_val arr fy fp = obs_val b"
    by (intro pick_val_of_two [of arr fy fp a b]) (simp_all add: pick_key_def)
next
  fix a b
  assume "set (candidates arr fy fp) = {a, b} \<and> end_or_empty a = end_or_empty b \<and>
          val_or_zero a < val_or_zero b"
  then show "pick_val arr fy fp = obs_val b"
    by (intro pick_val_of_two [of arr fy fp a b]) (simp_all add: pick_key_def)
qed

text \<open>
  The later filing wins over an earlier one of larger value, in either order of the
  array, and the larger value wins between two filings with one period end.
\<close>

theorem pick_val_latest_end_then_largest_value_witness:
  "pick_val [later_filing, earlier_filing] 2020 ''Q1'' = Some 120 \<and>
   pick_val [earlier_filing, later_filing] 2020 ''Q1'' = Some 120 \<and>
   pick_val [larger_filing, later_filing] 2020 ''Q1'' = Some 130"
proof -
  have c1: "set (candidates [later_filing, earlier_filing] 2020 ''Q1'') =
      {earlier_filing, later_filing}"
    by (auto simp add: candidates_def is_candidate_def example_defs)
  have c2: "set (candidates [earlier_filing, later_filing] 2020 ''Q1'') =
      {earlier_filing, later_filing}"
    by (auto simp add: candidates_def is_candidate_def example_defs)
  have c3: "set (candidates [larger_filing, later_filing] 2020 ''Q1'') =
      {later_filing, larger_filing}"
    by (auto simp add: candidates_def is_candidate_def example_defs)
  have e: "end_or_empty earlier_filing < end_or_empty later_filing"
    by (simp add: end_or_empty_def example_defs)
  have v: "end_or_empty later_filing = end_or_empty larger_filing \<and>
      val_or_zero later_filing < val_or_zero larger_filing"
    by (simp add: end_or_empty_def val_or_zero_def example_defs)
  have "pick_val [later_filing, earlier_filing] 2020 ''Q1'' = obs_val later_filing"
    using pick_val_latest_end_then_largest_value
      [of "[later_filing, earlier_filing]" 2020 "''Q1''"] c1 e
    by blast
  moreover have "pick_val [earlier_filing, later_filing] 2020 ''Q1'' = obs_val later_filing"
    using pick_val_latest_end_then_largest_value
      [of "[earlier_filing, later_filing]" 2020 "''Q1''"] c2 e
    by blast
  moreover have "pick_val [larger_filing, later_filing] 2020 ''Q1'' = obs_val larger_filing"
    using pick_val_latest_end_then_largest_value
      [of "[larger_filing, later_filing]" 2020 "''Q1''"] c3 v
    by blast
  ultimately show ?thesis
    by (simp add: example_defs)
qed

text \<open>
  C4. The fourth quarter of \<open>quarter_increment\<close>: when the full year value and the
  increments of Q1, Q2 and Q3 are all present, it is the full year value minus the three
  increments. Otherwise it is the value of an observation labelled Q4 when there is one,
  and the full year value (present or not) when there is none.
\<close>

theorem Q4_policy:
  assumes "tag_observations ug tag_list = Some arr"
    and "r = quarter_increment ug tag_list fy"
  shows "(\<forall>f a b c. FY r = Some f \<and> Q1 r = Some a \<and> Q2 r = Some b \<and> Q3 r = Some c
            \<longrightarrow> Q4 r = Some (f - a - b - c)) \<and>
         (FY r = None \<or> Q1 r = None \<or> Q2 r = None \<or> Q3 r = None \<longrightarrow>
            (\<forall>d. pick_val arr fy ''Q4'' = Some d \<longrightarrow> Q4 r = Some d) \<and>
            (pick_val arr fy ''Q4'' = None \<longrightarrow> Q4 r = FY r)) \<and>
         FY r = pick_val arr fy ''FY''"
proof -
  have r: "r = increments_of arr fy"
    using assms by (simp add: quarter_increment_unfold)
  have q4: "Q4 r = (if FY r \<noteq> None \<and> Q1 r \<noteq> None \<and> Q2 r \<noteq> None \<and> Q3 r \<noteq> None
         then Some (or_zero (FY r) - or_zero (Q1 r) - or_zero (Q2 r) - or_zero (Q3 r))
         else (case pick_val arr fy ''Q4'' of None \<Rightarrow> FY r | Some d \<Rightarrow> Some d))"
    unfolding r using increments_of_Q4 [of arr fy] by (simp add: Let_def)
  show ?thesis
    using q4 by (auto simp add: r increments_of_FY)
qed

text \<open>
  On the full year Q4 is 600 - 100 - 150 - 170; on the partial year, which has no
  observation labelled Q4 and no full year value, it is absent.
\<close>

theorem Q4_policy_witness:
  "Q4 (quarter_increment full_year_facts [''Revenues''] 2020) = Some 180 \<and>
   Q4 (quarter_increment partial_year_facts [''Revenues''] 2020) = None"
proof -
  have t: "tag_observations full_year_facts [''Revenues''] = Some full_year_revenue"
    by (simp add: increment_defs example_defs)
  have i: "FY (quarter_increment full_year_facts [''Revenues''] 2020) = Some 600 \<and>
      Q1 (quarter_increment full_year_facts [''Revenues''] 2020) = Some 100 \<and>
      Q2 (quarter_increment full_year_facts [''Revenues''] 2020) = Some 150 \<and>
      Q3 (quarter_increment full_year_facts [''Revenues''] 2020) = Some 170"
    by (simp add: increment_defs example_defs)
  have t': "tag_observations partial_year_facts [''Revenues''] = Some partial_year_revenue"
    by (simp add: increment_defs example_defs)
  have i': "FY (quarter_increment partial_year_facts [''Revenues''] 2020) = None \<and>
      pick_val partial_year_revenue 2020 ''Q4'' = None"
    by (simp add: increment_defs example_defs)
  have "Q4 (quarter_increment full_year_facts [''Revenues''] 2020) = Some (600 - 100 - 150 - 170)"
    using Q4_policy [OF t refl, of 2020] i by simp
  moreover have "Q4 (quarter_increment partial_year_facts [''Revenues''] 2020) =
      FY (quarter_increment partial_year_facts [''Revenues''] 2020)"
    using Q4_policy [OF t' refl, of 2020] i' by simp
  ultimately show ?thesis using i' by simp
qed

text \<open>
  C5. \<open>safe_div\<close> returns 0 when the denominator is 0 or \<open>None\<close> or the numerator is
  \<open>None\<close>, and the quotient when the numerator is a number and the denominator a number
  other than 0. It has no error result.
\<close>

theorem safe_div_total:
  "(b = Some 0 \<or> b = None \<or> a = None \<longrightarrow> safe_div a b = 0) \<and>
   (\<forall>x y. a = Some x \<and> b = Some y \<and> y \<noteq> 0 \<longrightarrow> safe_div a b = x / y)"
  by (auto simp add: safe_div_def)

theorem safe_div_total_witness:
  "safe_div (Some 3) (Some 0) = 0 \<and> safe_div (Some 3) None = 0 \<and>
   safe_div None (Some 2) = 0 \<and> safe_div (Some 3) (Some 2) = 3 / 2"
  using safe_div_total [of "Some 0" "Some 3"] safe_div_total [of None "Some 3"]
    safe_div_total [of "Some 2" None] safe_div_total [of "Some 2" "Some 3"]
  by simp

text \<open>
  C6. The growth columns are computed on the sorted frame of the accepted rows, where the
  rows of one ticker follow one another. There the sales growth (on revenue) and the
  earnings growth (on net income) of a row are the percent change from the row before it
  when that row has the same ticker: with both values present and the earlier one not
  zero it is (current - earlier) / earlier, with an earlier value of zero it is 0 and
  not an infinity, and with a value missing it is 0. The first row of a ticker (the
  first row of the frame, or a row after a row of another ticker) has growth 0. Every
  row of the panel returned is a row of this frame, with its growth columns unchanged.
\<close>

theorem growth_is_percent_change:
  assumes "rows = collect_rows ticker_map fetch tickers start_year end_year usd_only"
    and "df = sorted_frame rows"
    and "panel = with_growth df"
  shows "length panel = length df \<and>
    (\<forall>i<length df.
       ticker (panel ! i) = ticker (df ! i) \<and>
       col (panel ! i) ''revenue'' = col (df ! i) ''revenue'' \<and>
       col (panel ! i) ''net_income'' = col (df ! i) ''net_income'') \<and>
    (\<forall>i<length df. i = 0 \<or> ticker (df ! (i - 1)) \<noteq> ticker (df ! i) \<longrightarrow>
       (\<forall>j<i. ticker (df ! j) \<noteq> ticker (df ! i)) \<and>
       sales_growth (panel ! i) = 0 \<and> earning_growth (panel ! i) = 0) \<and>
    (\<forall>i. Suc i < length df \<and> ticker (df ! i) = ticker (df ! Suc i) \<longrightarrow>
       sales_growth (panel ! Suc i) =
         replace_fillna (pct_change (col (df ! Suc i) ''revenue'') (col (df ! i) ''revenue'')) \<and>
       earning_growth (panel ! Suc i) =
         replace_fillna (pct_change (col (df ! Suc i) ''net_income'')
                                    (col (df ! i) ''net_income''))) \<and>
    (\<forall>c p. replace_fillna (pct_change (Some c) (Some p)) = (if p = 0 then 0 else (c - p) / p)) \<and>
    (\<forall>cur prev. cur = None \<or> prev = None \<longrightarrow> replace_fillna (pct_change cur prev) = 0) \<and>
    (\<forall>r\<in>set (build_quarterly ticker_map fetch tickers start_year end_year usd_only).
       \<exists>i<length df. \<exists>n. r = fill_zero n (panel ! i) \<and>
         sales_growth r = sales_growth (panel ! i) \<and>
         earning_growth r = earning_growth (panel ! i))"
proof (intro conjI allI impI ballI)
  show len: "length panel = length df"
    by (simp add: assms(3) with_growth_length)
  show "\<And>i. i < length df \<Longrightarrow> ticker (panel ! i) = ticker (df ! i)"
    and "\<And>i. i < length df \<Longrightarrow> col (panel ! i) ''revenue'' = col (df ! i) ''revenue''"
    and "\<And>i. i < length df \<Longrightarrow> col (panel ! i) ''net_income'' = col (df ! i) ''net_income''"
    by (simp_all add: assms(3) with_growth_nth add_growth_sel)
  show "\<And>c p. replace_fillna (pct_change (Some c) (Some p)) = (if p = 0 then 0 else (c - p) / p)"
    by (simp add: replace_fillna_pct_change)
  show "\<And>cur prev. cur = None \<or> prev = None \<Longrightarrow> replace_fillna (pct_change cur prev) = 0"
    by (auto simp add: replace_fillna_pct_change split: option.splits)
next
  fix i
  assume i: "i < length df" and first: "i = 0 \<or> ticker (df ! (i - 1)) \<noteq> ticker (df ! i)"
  show none: "\<And>j. j < i \<Longrightarrow> ticker (df ! j) \<noteq> ticker (df ! i)"
    using sorted_frame_first_row [of i rows] i first unfolding assms(2) by blast
  then have n: "\<forall>j<i. ticker (df ! j) \<noteq> ticker (df ! i)" by blast
  show "sales_growth (panel ! i) = 0"
    using i growth_first_row [OF i n] by (simp add: assms(3) with_growth_nth add_growth_sel)
  show "earning_growth (panel ! i) = 0"
    using i growth_first_row [OF i n] by (simp add: assms(3) with_growth_nth add_growth_sel)
next
  fix i
  assume h: "Suc i < length df \<and> ticker (df ! i) = ticker (df ! Suc i)"
  then have s: "Suc i < length df" and t: "ticker (df ! i) = ticker (df ! Suc i)" by simp_all
  show "sales_growth (panel ! Suc i) =
         replace_fillna (pct_change (col (df ! Suc i) ''revenue'') (col (df ! i) ''revenue''))"
    using growth_next_row [OF s t] s by (simp add: assms(3) with_growth_nth add_growth_sel)
  show "earning_growth (panel ! Suc i) =
         replace_fillna (pct_change (col (df ! Suc i) ''net_income'')
                                    (col (df ! i) ''net_income''))"
    using growth_next_row [OF s t] s by (simp add: assms(3) with_growth_nth add_growth_sel)
next
  fix r
  assume "r \<in> set (build_quarterly ticker_map fetch tickers start_year end_year usd_only)"
  then obtain n r' where r': "r' \<in> set panel" "r = fill_zero n r'"
    unfolding assms by (auto simp add: build_quarterly_def Let_def split: if_splits)
  from r'(1) obtain i where "i < length panel" "panel ! i = r'"
    by (auto simp add: in_set_conv_nth)
  moreover have "length panel = length df"
    by (simp add: assms(3) with_growth_length)
  ultimately show "\<exists>i<length df. \<exists>n. r = fill_zero n (panel ! i) \<and>
         sales_growth r = sales_growth (panel ! i) \<and>
         earning_growth r = earning_growth (panel ! i)"
    using r'(2) by (auto simp add: fill_zero_sel)
qed

text \<open>
  In the full year the second row has a sales growth of (150 - 100) / 100 and an
  earnings growth of (12 - 10) / 10, and the first row has growth 0. After a net income
  of zero the earnings growth is 0.
\<close>

theorem growth_is_percent_change_witness:
  "map (\<lambda>r. (r_fq r, sales_growth r, earning_growth r))
       (with_growth (sorted_frame
          (collect_rows one_ticker fetch_full_year [''acme''] 2020 2020 True))) =
     [(''Q1'', 0, 0), (''Q2'', 1 / 2, 1 / 5), (''Q3'', 2 / 15, - (1 / 3)), (''Q4'', 1 / 17, 3 / 2)] \<and>
   sales_growth (with_growth (sorted_frame
          (collect_rows one_ticker fetch_full_year [''acme''] 2020 2020 True)) ! 0) = 0 \<and>
   earning_growth (with_growth (sorted_frame
          (collect_rows one_ticker fetch_full_year [''acme''] 2020 2020 True)) ! Suc 0) =
     (12 - 10) / 10 \<and>
   map (\<lambda>r. (r_fq r, col r ''net_income'', earning_growth r))
       (with_growth (sorted_frame
          (collect_rows one_ticker fetch_zero_income [''acme''] 2020 2020 True))) =
     [(''Q1'', Some 0, 0), (''Q2'', Some 12, 0)]"
proof -
  define df where
    "df = sorted_frame (collect_rows one_ticker fetch_full_year [''acme''] 2020 2020 True)"
  have len: "length df = 4"
    unfolding df_def by (simp add: row_simps frame_defs increment_defs example_defs)
  have r0: "ticker (df ! 0) = ''acme''" "col (df ! 0) ''net_income'' = Some 10"
    unfolding df_def by (simp_all add: row_simps frame_defs increment_defs example_defs)
  have r1: "ticker (df ! Suc 0) = ''acme''" "col (df ! Suc 0) ''net_income'' = Some 12"
    unfolding df_def by (simp_all add: row_simps frame_defs increment_defs example_defs)
  note gr = growth_is_percent_change [OF refl df_def refl]
  note first_rows = gr [THEN conjunct2, THEN conjunct2, THEN conjunct1, rule_format]
  note next_rows =
    gr [THEN conjunct2, THEN conjunct2, THEN conjunct2, THEN conjunct1, rule_format]
  note change =
    gr [THEN conjunct2, THEN conjunct2, THEN conjunct2, THEN conjunct2, THEN conjunct1,
        rule_format]
  have "0 < length df" using len by simp
  then have g0: "sales_growth (with_growth df ! 0) = 0"
    using first_rows [of 0] by simp
  have "Suc 0 < length df \<and> ticker (df ! 0) = ticker (df ! Suc 0)"
    using len r0 r1 by simp
  then have "earning_growth (with_growth df ! Suc 0) =
      replace_fillna (pct_change (col (df ! Suc 0) ''net_income'') (col (df ! 0) ''net_income''))"
    using next_rows [of 0] by simp
  then have g1: "earning_growth (with_growth df ! Suc 0) = (12 - 10) / 10"
    unfolding r0 r1 change by simp
  have all: "map (\<lambda>r. (r_fq r, sales_growth r, earning_growth r)) (with_growth df) =
     [(''Q1'', 0, 0), (''Q2'', 1 / 2, 1 / 5), (''Q3'', 2 / 15, - (1 / 3)), (''Q4'', 1 / 17, 3 / 2)]"
    unfolding df_def by (simp add: row_simps frame_defs increment_defs example_defs)
  have z: "map (\<lambda>r. (r_fq r, col r ''net_income'', earning_growth r))
       (with_growth (sorted_frame
          (collect_rows one_ticker fetch_zero_income [''acme''] 2020 2020 True))) =
     [(''Q1'', Some 0, 0), (''Q2'', Some 12, 0)]"
    by (simp add: row_simps frame_defs increment_defs example_defs)
  from all g0 g1 z show ?thesis
    unfolding df_def by (intro conjI)
qed

text \<open>
  C7. \<open>total_debt\<close> resolves the three debt metrics for the year and quarter. Its result
  is \<open>None\<close> exactly when all three are absent; otherwise it is the sum of the three with
  0 for an absent one.
\<close>

theorem total_debt_sum_of_present:
  assumes "lt = quarter_instant ug [''LongTermDebtNoncurrent''] fy fq"
    and "cur = quarter_instant ug [''LongTermDebtCurrent''] fy fq"
    and "st = quarter_instant ug [''ShortTermBorrowings''] fy fq"
  shows "(total_debt ug fy fq = None \<longleftrightarrow> lt = None \<and> cur = None \<and> st = None) \<and>
         (lt \<noteq> None \<or> cur \<noteq> None \<or> st \<noteq> None \<longrightarrow>
            total_debt ug fy fq = Some (or_zero lt + or_zero cur + or_zero st))"
proof -
  have "total_debt ug fy fq =
      (if lt = None \<and> cur = None \<and> st = None then None
       else Some (or_zero lt + or_zero cur + or_zero st))"
    unfolding assms total_debt_def debt_tags
    using sum_of_present by (simp add: Let_def)
  then show ?thesis by simp
qed

text \<open>
  The components 1000, absent and 500 give 1500; in a quarter with no debt observation
  the result is \<open>None\<close>.
\<close>

theorem total_debt_sum_of_present_witness:
  "total_debt debt_facts 2020 ''Q1'' = Some 1500 \<and> total_debt debt_facts 2020 ''Q2'' = None"
proof -
  have q1: "quarter_instant debt_facts [''LongTermDebtNoncurrent''] 2020 ''Q1'' = Some 1000 \<and>
      quarter_instant debt_facts [''LongTermDebtCurrent''] 2020 ''Q1'' = None \<and>
      quarter_instant debt_facts [''ShortTermBorrowings''] 2020 ''Q1'' = Some 500"
    by (simp add: increment_defs example_defs)
  have q2: "quarter_instant debt_facts [''LongTermDebtNoncurrent''] 2020 ''Q2'' = None \<and>
      quarter_instant debt_facts [''LongTermDebtCurrent''] 2020 ''Q2'' = None \<and>
      quarter_instant debt_facts [''ShortTermBorrowings''] 2020 ''Q2'' = None"
    by (simp add: increment_defs example_defs)
  have "total_debt debt_facts 2020 ''Q1'' = Some (1000 + 0 + 500)"
    using total_debt_sum_of_present [OF refl refl refl, of debt_facts 2020 "''Q1''"] q1
    by simp
  moreover have "total_debt debt_facts 2020 ''Q2'' = None"
    using total_debt_sum_of_present [OF refl refl refl, of debt_facts 2020 "''Q2''"] q2
    by simp
  ultimately show ?thesis by simp
qed

text \<open>
  C8. In \<open>quarter_increment\<close> the increment of Q2 is the Q2 value to date minus the Q1
  value to date when both are present, and the Q2 value to date itself (a number or
  \<open>None\<close>) otherwise; the increment of Q3 is formed the same way from the Q3 and Q2
  values to date. The function is total: a year with some values missing gives a result
  as any other does. And a row of the panel is dropped only for its own revenue
  increment or for the unit: the row of a quarter is appended exactly when the revenue
  increment of that quarter is present and not zero and the unit check passes.
\<close>

theorem Q2_Q3_pass_through:
  assumes "tag_observations ug tag_list = Some arr"
    and "r = quarter_increment ug tag_list fy"
    and "y1 = pick_val arr fy ''Q1''"
    and "y2 = pick_val arr fy ''Q2''"
    and "y3 = pick_val arr fy ''Q3''"
  shows "(\<forall>a b. y1 = Some a \<and> y2 = Some b \<longrightarrow> Q2 r = Some (b - a)) \<and>
         (y1 = None \<or> y2 = None \<longrightarrow> Q2 r = y2) \<and>
         (\<forall>b c. y2 = Some b \<and> y3 = Some c \<longrightarrow> Q3 r = Some (c - b)) \<and>
         (y2 = None \<or> y3 = None \<longrightarrow> Q3 r = y3) \<and>
         (\<forall>usd_only rev_unit tk ck fq.
            quarter_rows ug usd_only rev_unit tk ck fy fq \<noteq> [] \<longleftrightarrow>
              (\<exists>v. quarter_of (duration_data ug fy ''revenue'') fq = Some v \<and> v \<noteq> 0) \<and>
              \<not> (usd_only \<and> rev_unit \<noteq> Some ''USD''))"
proof -
  have r: "r = increments_of arr fy"
    using assms(1,2) by (simp add: quarter_increment_unfold)
  have "Q2 r = (case y2 of None \<Rightarrow> None
      | Some b \<Rightarrow> (case y1 of None \<Rightarrow> Some b | Some a \<Rightarrow> Some (b - a)))"
    unfolding r assms(3,4) by (rule increments_of_Q2)
  moreover have "Q3 r = (case y3 of None \<Rightarrow> None
      | Some c \<Rightarrow> (case y2 of None \<Rightarrow> Some c | Some b \<Rightarrow> Some (c - b)))"
    unfolding r assms(4,5) by (rule increments_of_Q3)
  moreover have "\<forall>usd_only rev_unit tk ck fq.
      quarter_rows ug usd_only rev_unit tk ck fy fq \<noteq> [] \<longleftrightarrow>
        (\<exists>v. quarter_of (duration_data ug fy ''revenue'') fq = Some v \<and> v \<noteq> 0) \<and>
        \<not> (usd_only \<and> rev_unit \<noteq> Some ''USD'')"
    by (auto simp add: quarter_rows_def Let_def)
  ultimately show ?thesis
    by (auto split: option.splits)
qed

text \<open>
  The partial year has no Q1 value: the increment of Q2 is the Q2 value to date, that of
  Q3 the difference, and the rows of Q2 and Q3 are in the panel.
\<close>

theorem Q2_Q3_pass_through_witness:
  "Q2 (quarter_increment partial_year_facts [''Revenues''] 2020) = Some 250 \<and>
   Q3 (quarter_increment partial_year_facts [''Revenues''] 2020) = Some 170 \<and>
   map r_fq (collect_rows one_ticker fetch_partial_year [''acme''] 2020 2020 True) =
     [''Q2'', ''Q3'']"
proof -
  have t: "tag_observations partial_year_facts [''Revenues''] = Some partial_year_revenue"
    by (simp add: increment_defs example_defs)
  have y: "pick_val partial_year_revenue 2020 ''Q1'' = None \<and>
      pick_val partial_year_revenue 2020 ''Q2'' = Some 250 \<and>
      pick_val partial_year_revenue 2020 ''Q3'' = Some 420"
    by (simp add: increment_defs example_defs)
  have rows: "map r_fq (collect_rows one_ticker fetch_partial_year [''acme''] 2020 2020 True) =
      [''Q2'', ''Q3'']"
    by (simp add: row_simps frame_defs increment_defs example_defs)
  have "Q2 (quarter_increment partial_year_facts [''Revenues''] 2020) = Some 250 \<and>
      Q3 (quarter_increment partial_year_facts [''Revenues''] 2020) = Some (420 - 250)"
    using Q2_Q3_pass_through [OF t refl refl refl refl, of 2020] y by simp
  with rows show ?thesis by simp
qed

text \<open>
  C9. The claim is that the final revenue filter removes no row that the admission
  filter accepted. The admission filter rejects a revenue that is absent or zero; the
  final filter keeps a revenue that is present and greater than zero. In the falling
  year the revenue increment of Q2 is 60 - 100: the row of Q2 is accepted, and the final
  filter removes it.
\<close>

theorem final_filter_removes_admitted_row:
  "map (\<lambda>r. (r_fq r, col r ''revenue''))
       (collect_rows one_ticker fetch_falling_year [''acme''] 2020 2020 True) =
     [(''Q1'', Some 100), (''Q2'', Some (- 40)), (''Q3'', Some 90)] \<and>
   map (\<lambda>r. (r_fq r, col r ''revenue''))
       (build_quarterly one_ticker fetch_falling_year [''acme''] 2020 2020 True) =
     [(''Q1'', Some 100), (''Q3'', Some 90)]"
  by (simp add: row_simps frame_defs increment_defs example_defs)

text \<open>
  C10. There is a non-empty array with an observation that matches the year and the
  period for which \<open>pick_val\<close> returns \<open>None\<close>. Whenever there are candidates, the result
  is \<open>None\<close> exactly when the last candidate of the sorted list has no value; so \<open>None\<close>
  does not say that no observation matched.
\<close>

theorem pick_val_none_despite_match:
  "(\<exists>arr fy fp. arr \<noteq> [] \<and> candidates arr fy fp \<noteq> [] \<and> pick_val arr fy fp = None) \<and>
   (\<forall>arr fy fp. candidates arr fy fp \<noteq> [] \<longrightarrow>
      (pick_val arr fy fp = None \<longleftrightarrow>
       obs_val (last (sort_key pick_key (candidates arr fy fp))) = None))"
proof (intro conjI allI impI)
  have "[valueless] \<noteq> [] \<and> candidates [valueless] 2020 ''Q1'' \<noteq> [] \<and>
      pick_val [valueless] 2020 ''Q1'' = None"
    by (simp add: pick_val_def candidates_def is_candidate_def valueless_def)
  then show "\<exists>arr fy fp. arr \<noteq> [] \<and> candidates arr fy fp \<noteq> [] \<and> pick_val arr fy fp = None"
    by blast
next
  fix arr fy fp
  assume "candidates arr fy fp \<noteq> []"
  then show "pick_val arr fy fp = None \<longleftrightarrow>
      obs_val (last (sort_key pick_key (candidates arr fy fp))) = None"
    by (simp add: pick_val_def Let_def)
qed

text \<open>
  An amended filing that lacks its value and ends later hides the value of the first
  filing.
\<close>

theorem pick_val_none_despite_match_witness:
  "candidates [earlier_filing, valueless] 2020 ''Q1'' = [earlier_filing, valueless] \<and>
   pick_val [earlier_filing, valueless] 2020 ''Q1'' = None"
proof -
  have c: "candidates [earlier_filing, valueless] 2020 ''Q1'' = [earlier_filing, valueless]"
    by (simp add: candidates_def is_candidate_def example_defs)
  have l: "obs_val (last (sort_key pick_key (candidates [earlier_filing, valueless] 2020 ''Q1'')))
      = None"
    by (simp add: increment_defs example_defs)
  have "candidates [earlier_filing, valueless] 2020 ''Q1'' \<noteq> []"
    using c by simp
  then have "pick_val [earlier_filing, valueless] 2020 ''Q1'' = None"
    using pick_val_none_despite_match l by blast
  with c show ?thesis by simp
qed

end
